theory Spec2Isabelle
  imports Complex_Main
begin

section \<open>Strings and regular expressions of the host language\<close>

text \<open>
  The metadata resolver is the class \<open>ApiService\<close>. Its two id extractors apply a regular
  expression literal to the url with \<open>String.prototype.match\<close>. The literals have no flags,
  so \<open>match\<close> is one run of the backtracking matcher: the pattern is tried at start index
  0, 1, 2, ... and the first start index with a match wins; inside one try the alternatives
  of \<open>|\<close> are tried left to right and \<open>*\<close>, \<open>+\<close> are greedy (longest repetition first, then
  one fewer). The matcher below is that algorithm in continuation-passing style, for the
  pattern constructs the two literals use.

  A string is a list of code units, here \<open>char\<close>: the model covers the strings whose code
  units are below 256. The line terminators U+2028 and U+2029, which \<open>.\<close> does not match
  either, lie outside this range.
\<close>

datatype cls =
    Lit char            \<comment> \<open>a literal character, also an escaped one such as \<open>\/\<close> or \<open>\?\<close>\<close>
  | AnyChar             \<comment> \<open>\<open>.\<close>: every character except a line terminator\<close>
  | WordChar            \<comment> \<open>\<open>\w\<close>: \<open>[A-Za-z0-9_]\<close>\<close>
  | OneOf string        \<comment> \<open>\<open>[...]\<close>\<close>
  | NoneOf string       \<comment> \<open>\<open>[^...]\<close>\<close>

definition line_terminator :: "char \<Rightarrow> bool" where
  "line_terminator c = (c = CHR 0x0A \<or> c = CHR 0x0D)"

definition word_char :: "char \<Rightarrow> bool" where
  "word_char c =
     (c \<in> set ''ABCDEFGHIJKLMNOPQRSTUVWXYZabcdefghijklmnopqrstuvwxyz0123456789_'')"

fun cls_ok :: "cls \<Rightarrow> char \<Rightarrow> bool" where
  "cls_ok (Lit a) c = (c = a)"
| "cls_ok AnyChar c = (\<not> line_terminator c)"
| "cls_ok WordChar c = word_char c"
| "cls_ok (OneOf cs) c = (c \<in> set cs)"
| "cls_ok (NoneOf cs) c = (c \<notin> set cs)"

datatype rx =
    Bol                 \<comment> \<open>\<open>^\<close> (no \<open>m\<close> flag): the start of the input\<close>
  | Eps                 \<comment> \<open>the empty pattern\<close>
  | One cls             \<comment> \<open>one character of the class\<close>
  | Star cls            \<comment> \<open>greedy \<open>*\<close> on a character class\<close>
  | Seq rx rx
  | Alt rx rx           \<comment> \<open>\<open>|\<close>, the left alternative first\<close>
  | Grp nat rx          \<comment> \<open>capturing group with its number\<close>

type_synonym caps = "nat \<rightharpoonup> string"

text \<open>
  \<open>star c s k\<close>: consume the longest run of \<open>c\<close> at the head of \<open>s\<close> and continue with \<open>k\<close>;
  when \<open>k\<close> fails give one character back and try again.
\<close>

fun star :: "cls \<Rightarrow> string \<Rightarrow> (string \<Rightarrow> 'r option) \<Rightarrow> 'r option" where
  "star c [] k = k []"
| "star c (x # xs) k =
     (if cls_ok c x
      then (case star c xs k of Some r \<Rightarrow> Some r | None \<Rightarrow> k (x # xs))
      else k (x # xs))"

text \<open>
  \<open>mtch n r s c k\<close>: match \<open>r\<close> at the head of the remaining input \<open>s\<close> (the whole input
  has \<open>n\<close> characters), with the captures \<open>c\<close> made so far, and hand what is left to the
  continuation \<open>k\<close>. \<open>None\<close> is failure, which makes the caller backtrack.
\<close>

fun mtch :: "nat \<Rightarrow> rx \<Rightarrow> string \<Rightarrow> caps \<Rightarrow> (string \<Rightarrow> caps \<Rightarrow> 'r option) \<Rightarrow> 'r option" where
  "mtch n Bol s c k = (if length s = n then k s c else None)"
| "mtch n Eps s c k = k s c"
| "mtch n (One a) s c k =
     (case s of [] \<Rightarrow> None | x # xs \<Rightarrow> if cls_ok a x then k xs c else None)"
| "mtch n (Star a) s c k = star a s (\<lambda>s'. k s' c)"
| "mtch n (Seq r1 r2) s c k = mtch n r1 s c (\<lambda>s' c'. mtch n r2 s' c' k)"
| "mtch n (Alt r1 r2) s c k =
     (case mtch n r1 s c k of Some r \<Rightarrow> Some r | None \<Rightarrow> mtch n r2 s c k)"
| "mtch n (Grp i r) s c k =
     mtch n r s c (\<lambda>s' c'. k s' (c'(i \<mapsto> take (length s - length s') s)))"

text \<open>
  \<open>search n r s\<close>: the loop over start indices; \<open>s\<close> is the input from the current start
  index on. The result is the match array: entry 0 the matched text, entry \<open>i\<close> the text of
  group \<open>i\<close>, absent (\<open>undefined\<close>) when the group took no part.
\<close>

fun search :: "nat \<Rightarrow> rx \<Rightarrow> string \<Rightarrow> caps option" where
  "search n r [] =
     mtch n r [] Map.empty (\<lambda>s' c. Some (c(0 \<mapsto> [])))"
| "search n r (x # xs) =
     (case mtch n r (x # xs) Map.empty
             (\<lambda>s' c. Some (c(0 \<mapsto> take (length (x # xs) - length s') (x # xs)))) of
        Some m \<Rightarrow> Some m
      | None \<Rightarrow> search n r xs)"

definition match :: "string \<Rightarrow> rx \<Rightarrow> caps option" where
  "match url regExp = search (length url) regExp url"

text \<open>A run of literal characters, and \<open>+\<close> on a character class.\<close>

fun lit :: "string \<Rightarrow> rx" where
  "lit [] = Eps"
| "lit (x # xs) = Seq (One (Lit x)) (lit xs)"

definition plus_rx :: "cls \<Rightarrow> rx" where
  "plus_rx a = Seq (One a) (Star a)"

section \<open>URL identifier extractor\<close>

datatype exn =
    TypeError                 \<comment> \<open>a property read on \<open>null\<close> or \<open>undefined\<close>\<close>
  | FetchFailed               \<comment> \<open>\<open>fetch\<close> rejected: no response from the network\<close>
  | AbortError                \<comment> \<open>\<open>fetch\<close> rejected: the timer aborted the request\<close>
  | SyntaxError               \<comment> \<open>\<open>response.json()\<close> rejected: the body is not JSON\<close>
  | PlaylistNotOk nat         \<comment> \<open>\<open>Error(`Playlist API response was not ok: ${status}`)\<close>\<close>
  | PlaylistInvalid           \<comment> \<open>\<open>Error('Playlist data is invalid or empty')\<close>\<close>
  | OEmbedNotOk nat           \<comment> \<open>\<open>Error(`oEmbed network response was not ok: ${status}`)\<close>\<close>
  | OEmbedError               \<comment> \<open>\<open>Error(`oEmbed error: ${data.error}`)\<close>\<close>

text \<open>
  \<open>/^.*(youtu.be\/|v\/|u\/\w\/|embed\/|watch\?v=|&v=)([^#&?]*).*/\<close>; the dot of
  \<open>youtu.be\<close> is not escaped in the source and stands for any character.
\<close>

definition delimiters :: rx where
  "delimiters =
     Alt (Seq (lit ''youtu'') (Seq (One AnyChar) (lit ''be/'')))
    (Alt (lit ''v/'')
    (Alt (Seq (lit ''u/'') (Seq (One WordChar) (lit ''/'')))
    (Alt (lit ''embed/'')
    (Alt (lit ''watch?v='')
         (lit ''&v='')))))"

definition videoRegExp :: rx where
  "videoRegExp =
     Seq Bol (Seq (Star AnyChar) (Seq (Grp 1 delimiters)
       (Seq (Grp 2 (Star (NoneOf ''#&?''))) (Star AnyChar))))"

text \<open>\<open>/[?&]list=([^#&?]+)/\<close>\<close>

definition playlistRegExp :: rx where
  "playlistRegExp =
     Seq (One (OneOf ''?&'')) (Seq (lit ''list='') (Grp 1 (plus_rx (NoneOf ''#&?''))))"

text \<open>
  \<open>getYouTubeID\<close>: \<open>match && match[2].length === 11\<close>. Reading \<open>length\<close> of an absent
  group would throw a TypeError; the model keeps that branch.
\<close>

definition getYouTubeID :: "string \<Rightarrow> exn + string option" where
  "getYouTubeID url =
     (case match url videoRegExp of
        None \<Rightarrow> Inr None
      | Some m \<Rightarrow>
          (case m 2 of
             None \<Rightarrow> Inl TypeError
           | Some g \<Rightarrow> if length g = 11 then Inr (Some g) else Inr None))"

text \<open>
  \<open>getYouTubePlaylistID\<close>: \<open>match ? match[1] : null\<close>. \<open>None\<close> stands for both \<open>null\<close>
  and an absent group.
\<close>

definition getYouTubePlaylistID :: "string \<Rightarrow> string option" where
  "getYouTubePlaylistID url =
     (case match url playlistRegExp of None \<Rightarrow> None | Some m \<Rightarrow> m 1)"

section \<open>Values decoded from a response body\<close>

text \<open>
  \<open>response.json()\<close> yields an arbitrary JSON value, and the code reads properties of it
  without checking its shape. \<open>jsval\<close> is the value domain: the JSON values and
  \<open>undefined\<close>, the result of reading a property that is not there. An object is the list of
  its own properties, each name once. A number is held as a real; the code only tests
  numbers for being zero.
\<close>

datatype jsval =
    Undefined
  | Null
  | Bool bool
  | Num real
  | Str string
  | Arr "jsval list"
  | Obj "(string \<times> jsval) list"

text \<open>Truthiness, as tested by \<open>||\<close>, \<open>!\<close> and \<open>?:\<close>.\<close>

fun truthy :: "jsval \<Rightarrow> bool" where
  "truthy Undefined = False"
| "truthy Null = False"
| "truthy (Bool b) = b"
| "truthy (Num x) = (x \<noteq> 0)"
| "truthy (Str s) = (s \<noteq> [])"
| "truthy (Arr xs) = True"
| "truthy (Obj kvs) = True"

text \<open>\<open>a || b\<close>\<close>

definition or_else :: "jsval \<Rightarrow> jsval \<Rightarrow> jsval" where
  "or_else a b = (if truthy a then a else b)"

text \<open>
  \<open>v.key\<close> for the property names the code reads (\<open>error\<close>, \<open>title\<close>, \<open>thumbnail_url\<close>,
  \<open>playlist_info\<close>, \<open>items\<close>, \<open>thumbnail\<close>, \<open>length\<close>): a TypeError on \<open>null\<close> and
  \<open>undefined\<close>, the own property of an object, the \<open>length\<close> of a string or an array, and
  \<open>undefined\<close> otherwise (none of these names is inherited from a prototype).
\<close>

fun get_prop :: "jsval \<Rightarrow> string \<Rightarrow> exn + jsval" where
  "get_prop Undefined key = Inl TypeError"
| "get_prop Null key = Inl TypeError"
| "get_prop (Obj kvs) key = (case map_of kvs key of None \<Rightarrow> Inr Undefined | Some v \<Rightarrow> Inr v)"
| "get_prop (Str s) key =
     (if key = ''length'' then Inr (Num (real (length s))) else Inr Undefined)"
| "get_prop (Arr xs) key =
     (if key = ''length'' then Inr (Num (real (length xs))) else Inr Undefined)"
| "get_prop (Bool b) key = Inr Undefined"
| "get_prop (Num x) key = Inr Undefined"

text \<open>\<open>v[0]\<close>\<close>

fun get_first :: "jsval \<Rightarrow> exn + jsval" where
  "get_first Undefined = Inl TypeError"
| "get_first Null = Inl TypeError"
| "get_first (Arr xs) = (case xs of [] \<Rightarrow> Inr Undefined | x # _ \<Rightarrow> Inr x)"
| "get_first (Str s) = (case s of [] \<Rightarrow> Inr Undefined | x # _ \<Rightarrow> Inr (Str [x]))"
| "get_first (Obj kvs) = (case map_of kvs ''0'' of None \<Rightarrow> Inr Undefined | Some v \<Rightarrow> Inr v)"
| "get_first (Bool b) = Inr Undefined"
| "get_first (Num x) = Inr Undefined"

text \<open>\<open>v?.key\<close>\<close>

fun get_prop_opt :: "jsval \<Rightarrow> string \<Rightarrow> exn + jsval" where
  "get_prop_opt Undefined key = Inr Undefined"
| "get_prop_opt Null key = Inr Undefined"
| "get_prop_opt v key = get_prop v key"

text \<open>Sequencing of steps that may throw.\<close>

fun bnd :: "exn + 'a \<Rightarrow> ('a \<Rightarrow> exn + 'b) \<Rightarrow> exn + 'b" where
  "bnd (Inl e) f = Inl e"
| "bnd (Inr v) f = f v"

text \<open>Truthiness of a \<open>string | null\<close>, as in \<open>playlistId && !videoId\<close> and \<open>videoId ? ... : ...\<close>.\<close>

fun truthy_id :: "string option \<Rightarrow> bool" where
  "truthy_id None = False"
| "truthy_id (Some s) = (s \<noteq> [])"

section \<open>The network\<close>

text \<open>
  The only input of the resolver besides the url is the network. A request is the url
  handed to \<open>fetch\<close> and the deadline armed for it; the state of the network is the list of
  the requests issued so far. What \<open>fetch\<close> settles to is given by an arbitrary function
  \<open>net\<close> of that history and the request, so a statement for every \<open>net\<close> holds whatever the
  endpoints do. The abort by the timer is one of the outcomes. A response carries its
  \<open>ok\<close> flag, its status and what \<open>json()\<close> settles to: \<open>None\<close> when the body is not JSON.
  Every request and every reading of a body is taken to settle.
\<close>

record request =
  req_url :: string
  req_timeout :: nat

record response =
  ok :: bool
  status :: nat
  body :: "jsval option"

datatype fetch_outcome = Unreachable | TimedOut | Responded response

type_synonym network = "request list \<Rightarrow> request \<Rightarrow> fetch_outcome"

text \<open>
  \<open>fetchWithTimeout(url, options, timeout)\<close>: one \<open>fetch\<close>; the timer is cleared on both
  paths and the response or the rejection is passed on untouched. \<open>options\<close> is always
  \<open>{}\<close> and is left out.
\<close>

definition fetchWithTimeout ::
  "network \<Rightarrow> string \<Rightarrow> nat \<Rightarrow> request list \<Rightarrow> (exn + response) \<times> request list" where
  "fetchWithTimeout net url timeout h =
     (let rq = \<lparr>req_url = url, req_timeout = timeout\<rparr> in
      case net h rq of
        Responded r \<Rightarrow> (Inr r, h @ [rq])
      | Unreachable \<Rightarrow> (Inl FetchFailed, h @ [rq])
      | TimedOut \<Rightarrow> (Inl AbortError, h @ [rq]))"

text \<open>\<open>response.json()\<close>\<close>

definition json :: "response \<Rightarrow> exn + jsval" where
  "json r = (case body r of None \<Rightarrow> Inl SyntaxError | Some v \<Rightarrow> Inr v)"

text \<open>
  \<open>encodeURIComponent\<close>: the unreserved characters stay, every other character becomes
  the percent-escaped bytes of its UTF-8 encoding (two bytes from U+0080 to U+00FF). The
  function throws on a lone surrogate only, which is not a code unit below 256.
\<close>

definition unreserved :: "char \<Rightarrow> bool" where
  "unreserved c =
     (c \<in> set ''ABCDEFGHIJKLMNOPQRSTUVWXYZabcdefghijklmnopqrstuvwxyz0123456789-_.!~*()''
      \<or> c = CHR 0x27)"

definition hex_digit :: "nat \<Rightarrow> char" where
  "hex_digit d = ''0123456789ABCDEF'' ! (d mod 16)"

definition percent :: "nat \<Rightarrow> string" where
  "percent b = [CHR ''%'', hex_digit (b div 16), hex_digit b]"

definition encode_char :: "char \<Rightarrow> string" where
  "encode_char c =
     (let n = (of_char c :: nat) in
      if unreserved c then [c]
      else if n < 128 then percent n
      else percent (192 + n div 64) @ percent (128 + n mod 64))"

definition encodeURIComponent :: "string \<Rightarrow> string" where
  "encodeURIComponent s = concat (map encode_char s)"

section \<open>Backoff retrier\<close>

record RetryConfig =
  maxRetries :: nat
  baseDelay :: real
  maxDelay :: real
  backoffFactor :: real

record ApiService =
  retryConfig :: RetryConfig

text \<open>The exported instance, with the field initialiser of the class.\<close>

definition apiService :: ApiService where
  "apiService =
     \<lparr>retryConfig = \<lparr>maxRetries = 3, baseDelay = 1000, maxDelay = 10000, backoffFactor = 2\<rparr>\<rparr>"

text \<open>
  An asynchronous operation is a function on the state it works on that returns the value
  it fulfils with (\<open>Inr\<close>) or the error it rejects with (\<open>Inl\<close>), and the new state. A
  \<open>run\<close> wraps that state, \<open>env\<close>, with two observations of the retrier that the operation
  cannot see: \<open>attempts\<close>, how often the retrier has invoked the operation, and \<open>sleeps\<close>,
  the arguments of its calls of \<open>this.delay\<close>, oldest first. \<open>console.log\<close> and
  \<open>console.warn\<close> have no effect on any result and are left out.
\<close>

record 's run =
  env :: 's
  attempts :: nat
  sleeps :: "real list"

text \<open>\<open>delay(ms)\<close>: resolves after the timer fired.\<close>

definition delay :: "real \<Rightarrow> 's run \<Rightarrow> 's run" where
  "delay ms w = w\<lparr>sleeps := sleeps w @ [ms]\<rparr>"

text \<open>\<open>await operation()\<close>, with the invocation counted.\<close>

definition invoke :: "('s \<Rightarrow> (exn + 'a) \<times> 's) \<Rightarrow> 's run \<Rightarrow> (exn + 'a) \<times> 's run" where
  "invoke operation w =
     (case operation (env w) of
        (r, e') \<Rightarrow> (r, w\<lparr>env := e', attempts := Suc (attempts w)\<rparr>))"

function retryWithBackoff ::
  "ApiService \<Rightarrow> ('s \<Rightarrow> (exn + 'a) \<times> 's) \<Rightarrow> nat \<Rightarrow> 's run \<Rightarrow> (exn + 'a) \<times> 's run" where
  "retryWithBackoff this operation retryCount w =
     (case invoke operation w of
        (Inr v, w') \<Rightarrow> (Inr v, w')
      | (Inl err, w') \<Rightarrow>
          if retryCount \<ge> maxRetries (retryConfig this) then (Inl err, w')
          else
            let delay_ms = min (baseDelay (retryConfig this)
                                  * backoffFactor (retryConfig this) ^ retryCount)
                               (maxDelay (retryConfig this))
            in retryWithBackoff this operation (retryCount + 1) (delay delay_ms w'))"
  by pat_completeness auto
termination
  by (relation "measure (\<lambda>(this, operation, retryCount, w).
                   maxRetries (retryConfig this) - retryCount)") auto

section \<open>Metadata resolver\<close>

record video_data =
  title :: jsval
  thumbnailUrl :: jsval

datatype tier = primary | fallback

text \<open>
  \<open>ApiResponse\<close>. The fields of \<open>data\<close> are typed \<open>string\<close> in the source, but the primary
  paths copy them from the decoded body unchecked, so they hold a \<open>jsval\<close>. The optional
  \<open>error\<close> holds the caught error whose message the source stores.
\<close>

record api_response =
  data :: video_data
  success :: bool
  error :: "exn option"
  source :: tier

text \<open>The closure \<open>operation\<close> of \<open>fetchPlaylistData\<close>, and the method.\<close>

definition fetchPlaylistData_operation ::
  "network \<Rightarrow> string \<Rightarrow> request list \<Rightarrow> (exn + api_response) \<times> request list" where
  "fetchPlaylistData_operation net url h =
     (case fetchWithTimeout net
             (''https://api.youtubemultidownloader.com/playlist?url='' @ encodeURIComponent url)
             10000 h of
        (Inl e, h') \<Rightarrow> (Inl e, h')
      | (Inr response, h') \<Rightarrow>
          (if \<not> ok response then Inl (PlaylistNotOk (status response))
           else
             bnd (json response) (\<lambda>d.
             bnd (get_prop d ''error'') (\<lambda>e.
             if truthy e then Inl PlaylistInvalid else
             bnd (get_prop d ''playlist_info'') (\<lambda>info.
             if \<not> truthy info then Inl PlaylistInvalid else
             bnd (get_prop d ''playlist_info'') (\<lambda>info'.
             bnd (get_prop info' ''items'') (\<lambda>items.
             bnd (get_prop items ''length'') (\<lambda>len.
             if len = Num 0 then Inl PlaylistInvalid else
             bnd (get_prop d ''playlist_info'') (\<lambda>playlistInfo.
             bnd (get_prop playlistInfo ''items'') (\<lambda>items'.
             bnd (get_first items') (\<lambda>item.
             bnd (get_prop_opt item ''thumbnail'') (\<lambda>firstVideoThumbnail.
             bnd (get_prop playlistInfo ''title'') (\<lambda>t.
             Inr \<lparr>data = \<lparr>title = or_else t (Str ''YouTube Playlist''),
                         thumbnailUrl = or_else firstVideoThumbnail (Str ''placeholder'')\<rparr>,
                  success = True, error = None, source = primary\<rparr>))))))))))),
           h'))"

definition fetchPlaylistData ::
  "ApiService \<Rightarrow> network \<Rightarrow> string \<Rightarrow> request list run
     \<Rightarrow> (exn + api_response) \<times> request list run" where
  "fetchPlaylistData this net url w =
     retryWithBackoff this (fetchPlaylistData_operation net url) 0 w"

text \<open>The closure \<open>operation\<close> of \<open>fetchVideoDataFromNoEmbed\<close>, and the method.\<close>

definition fetchVideoDataFromNoEmbed_operation ::
  "network \<Rightarrow> string \<Rightarrow> request list \<Rightarrow> (exn + api_response) \<times> request list" where
  "fetchVideoDataFromNoEmbed_operation net url h =
     (case fetchWithTimeout net
             (''https://noembed.com/embed?url='' @ encodeURIComponent url) 10000 h of
        (Inl e, h') \<Rightarrow> (Inl e, h')
      | (Inr response, h') \<Rightarrow>
          (if \<not> ok response then Inl (OEmbedNotOk (status response))
           else
             bnd (json response) (\<lambda>d.
             bnd (get_prop d ''error'') (\<lambda>e.
             if truthy e then Inl OEmbedError else
             bnd (getYouTubeID url) (\<lambda>currentVideoId.
             bnd (case currentVideoId of
                    None \<Rightarrow> get_prop d ''thumbnail_url''
                  | Some v \<Rightarrow>
                      if truthy_id currentVideoId
                      then Inr (Str (''https://img.youtube.com/vi/'' @ v @ ''/mqdefault.jpg''))
                      else get_prop d ''thumbnail_url'') (\<lambda>thumbnail.
             bnd (get_prop d ''title'') (\<lambda>t.
             Inr \<lparr>data = \<lparr>title = or_else t (Str ''Untitled''), thumbnailUrl = thumbnail\<rparr>,
                  success = True, error = None, source = primary\<rparr>))))),
           h'))"

definition fetchVideoDataFromNoEmbed ::
  "ApiService \<Rightarrow> network \<Rightarrow> string \<Rightarrow> request list run
     \<Rightarrow> (exn + api_response) \<times> request list run" where
  "fetchVideoDataFromNoEmbed this net url w =
     retryWithBackoff this (fetchVideoDataFromNoEmbed_operation net url) 0 w"

definition extractTitleFromUrl :: "string \<Rightarrow> exn + string" where
  "extractTitleFromUrl url =
     bnd (getYouTubeID url) (\<lambda>videoId.
       case (if truthy_id videoId then videoId else None) of
         Some v \<Rightarrow> Inr (''YouTube Video ('' @ v @ '')'')
       | None \<Rightarrow>
           let playlistId = getYouTubePlaylistID url in
           (case (if truthy_id playlistId then playlistId else None) of
              Some p \<Rightarrow> Inr (''YouTube Playlist ('' @ p @ '')'')
            | None \<Rightarrow> Inr ''YouTube Content''))"

text \<open>
  \<open>fetchWithFallback\<close>: the \<open>try\<close> block, and the \<open>catch\<close> that turns whatever it throws
  into a result with \<open>success: false\<close>. No network call is made.
\<close>

definition fetchWithFallback :: "string \<Rightarrow> string option \<Rightarrow> api_response" where
  "fetchWithFallback url videoId =
     (case
        (let thumbnail =
           (case (if truthy_id videoId then videoId else None) of
              Some v \<Rightarrow> ''https://img.youtube.com/vi/'' @ v @ ''/mqdefault.jpg''
            | None \<Rightarrow> ''placeholder'')
         in bnd (extractTitleFromUrl url) (\<lambda>t.
              Inr \<lparr>data = \<lparr>title = Str t, thumbnailUrl = Str thumbnail\<rparr>,
                   success = True, error = None, source = fallback\<rparr>))
      of
        Inr r \<Rightarrow> r
      | Inl e \<Rightarrow>
          \<lparr>data = \<lparr>title = Str ''Untitled'', thumbnailUrl = Str ''placeholder''\<rparr>,
           success = False, error = Some e, source = fallback\<rparr>)"

text \<open>
  \<open>fetchVideoData\<close>. The two extractions stand before the \<open>try\<close>: an error thrown by
  them would reject the returned promise.
\<close>

definition fetchVideoData ::
  "ApiService \<Rightarrow> network \<Rightarrow> string \<Rightarrow> request list run
     \<Rightarrow> (exn + api_response) \<times> request list run" where
  "fetchVideoData this net url w =
     (case getYouTubeID url of
        Inl e \<Rightarrow> (Inl e, w)
      | Inr videoId \<Rightarrow>
          let playlistId = getYouTubePlaylistID url in
          (case (if truthy_id playlistId \<and> \<not> truthy_id videoId
                 then fetchPlaylistData this net url w
                 else fetchVideoDataFromNoEmbed this net url w) of
             (Inr r, w') \<Rightarrow> (Inr r, w')
           | (Inl e, w') \<Rightarrow> (Inr (fetchWithFallback url videoId), w')))"

section \<open>Health prober\<close>

record health =
  noembed :: bool
  youtubemultidownloader :: bool

text \<open>The \<open>status\<close> that \<open>Promise.allSettled\<close> reports for a settled promise.\<close>

fun fulfilled :: "exn + 'a \<Rightarrow> bool" where
  "fulfilled (Inr v) = True"
| "fulfilled (Inl e) = False"

text \<open>
  \<open>checkApiHealth\<close>: both probes are started, in the order of the array literal, and
  both are awaited; each element of \<open>results\<close> records how its own promise settled.
\<close>

definition checkApiHealth :: "network \<Rightarrow> request list \<Rightarrow> health \<times> request list" where
  "checkApiHealth net h =
     (case fetchWithTimeout net
             ''https://noembed.com/embed?url=https://www.youtube.com/watch?v=dQw4w9WgXcQ''
             5000 h of
        (r0, h0) \<Rightarrow>
          (case fetchWithTimeout net
                  ''https://api.youtubemultidownloader.com/playlist?url=https://www.youtube.com/playlist?list=PLrAXtmRdnEQy6nuLMOV7V4r4s_nloyEfR''
                  5000 h0 of
             (r1, h1) \<Rightarrow>
               (\<lparr>noembed = fulfilled r0, youtubemultidownloader = fulfilled r1\<rparr>, h1)))"

section \<open>Notions used in the statements\<close>

text \<open>
  \<open>delimiter_at s\<close>: group 1 of the video pattern tried at the head of \<open>s\<close>; the result is
  the text that follows the delimiter, \<open>None\<close> when no alternative matches there.
\<close>

definition delimiter_at :: "string \<Rightarrow> string option" where
  "delimiter_at s = mtch 0 delimiters s Map.empty (\<lambda>s' c. Some s')"

text \<open>
  \<open>delimiter_free s\<close>: no delimiter starts at any position of \<open>s\<close> up to its first line
  terminator, that is, at any position the leading \<open>.*\<close> of the video pattern can reach
  when it starts at the head of \<open>s\<close>.
\<close>

fun delimiter_free :: "string \<Rightarrow> bool" where
  "delimiter_free [] = (delimiter_at [] = None)"
| "delimiter_free (x # xs) =
     (delimiter_at (x # xs) = None \<and> (line_terminator x \<or> delimiter_free xs))"

text \<open>A pattern without anchor and without group.\<close>

fun plain :: "rx \<Rightarrow> bool" where
  "plain Bol = False"
| "plain Eps = True"
| "plain (One a) = True"
| "plain (Star a) = True"
| "plain (Seq r1 r2) = (plain r1 \<and> plain r2)"
| "plain (Alt r1 r2) = (plain r1 \<and> plain r2)"
| "plain (Grp i r) = False"

text \<open>\<open>env_after operation n e\<close>: the state that \<open>n\<close> successive invocations leave, from \<open>e\<close>.\<close>

fun env_after :: "('s \<Rightarrow> (exn + 'a) \<times> 's) \<Rightarrow> nat \<Rightarrow> 's \<Rightarrow> 's" where
  "env_after operation 0 e = e"
| "env_after operation (Suc n) e = env_after operation n (snd (operation e))"


text \<open>
  \<open>scripted outs\<close>: the network whose \<open>i\<close>-th request settles to the \<open>i\<close>-th outcome of
  \<open>outs\<close>, and that is unreachable from then on. \<open>fresh\<close>: a run that starts with no request
  issued.
\<close>

definition scripted :: "fetch_outcome list \<Rightarrow> network" where
  "scripted outs h rq = (if length h < length outs then outs ! length h else Unreachable)"

definition fresh :: "request list run" where
  "fresh = \<lparr>env = [], attempts = 0, sleeps = []\<rparr>"

text \<open>The two requests of the health prober.\<close>

definition noembed_probe :: request where
  "noembed_probe =
     \<lparr>req_url = ''https://noembed.com/embed?url=https://www.youtube.com/watch?v=dQw4w9WgXcQ'',
      req_timeout = 5000\<rparr>"

definition playlist_probe :: request where
  "playlist_probe =
     \<lparr>req_url = ''https://api.youtubemultidownloader.com/playlist?url=https://www.youtube.com/playlist?list=PLrAXtmRdnEQy6nuLMOV7V4r4s_nloyEfR'',
      req_timeout = 5000\<rparr>"

section \<open>Properties of the matcher and of the extractors\<close>

lemma star_total:
  "star c s (\<lambda>s'. Some (h s')) = Some (h (dropWhile (cls_ok c) s))"
  by (induction s) auto

lemma star_map_option:
  "star c s (\<lambda>s'. map_option g (f s')) = map_option g (star c s f)"
  by (induction s) (auto split: option.splits)

lemma star_Some:
  "star c s k = Some r \<Longrightarrow> \<exists>s'. length s' \<le> length s \<and> k s' = Some r"
proof (induction s)
  case Nil
  then show ?case by auto
next
  case (Cons x xs)
  show ?case
  proof (cases "cls_ok c x \<and> star c xs k \<noteq> None")
    case True
    with Cons.prems have "star c xs k = Some r" by auto
    from Cons.IH [OF this] obtain s' where "length s' \<le> length xs" "k s' = Some r" by blast
    then show ?thesis by (intro exI [of _ s']) simp
  next
    case False
    with Cons.prems have "k (x # xs) = Some r" by (auto split: if_splits)
    then show ?thesis by (intro exI [of _ "x # xs"]) simp
  qed
qed

lemma mtch_map_option:
  "mtch n r s c (\<lambda>s' c'. map_option g (f s' c')) = map_option g (mtch n r s c f)"
proof (induction r arbitrary: s c f)
  case (Star a)
  then show ?case by (simp add: star_map_option)
next
  case (Alt r1 r2)
  then show ?case by (auto split: option.splits)
next
  case (One a)
  then show ?case by (auto split: list.splits)
qed simp_all

lemma mtch_plain:
  "plain r \<Longrightarrow> mtch n r s c k = mtch n' r s c' (\<lambda>s' x. k s' c)"
proof (induction r arbitrary: s k c c' n n')
  case (Seq r1 r2)
  from Seq.prems have p: "plain r1" "plain r2" by simp_all
  let ?K = "\<lambda>s'' (y::caps). k s'' c"
  have "mtch n (Seq r1 r2) s c k = mtch n' r1 s c' (\<lambda>s' x. mtch n r2 s' c k)"
    using Seq.IH(1) [OF p(1), of n s c "\<lambda>s' c1. mtch n r2 s' c1 k" n' c'] by simp
  also have "\<dots> = mtch n' r1 s c' (\<lambda>s' x. mtch n' r2 s' c' ?K)"
    using Seq.IH(2) [OF p(2), of n _ c k n' c'] by simp
  also have "\<dots> = mtch n' r1 s c' (\<lambda>s' c1. mtch n' r2 s' c1 ?K)"
    using Seq.IH(1) [OF p(1), of n' s c' "\<lambda>s' c1. mtch n' r2 s' c1 ?K" n' c'] by simp
  finally show ?case by simp
next
  case (Alt r1 r2)
  from Alt.prems have p: "plain r1" "plain r2" by simp_all
  show ?case
    using Alt.IH(1) [OF p(1), of n s c k n' c'] Alt.IH(2) [OF p(2), of n s c k n' c']
    by (simp split: option.splits)
qed (auto split: list.splits)

lemma mtch_lit:
  "mtch n (lit l) s c k = (if take (length l) s = l then k (drop (length l) s) c else None)"
proof (induction l arbitrary: s)
  case Nil
  show ?case by simp
next
  case (Cons x xs)
  show ?case by (cases s) (auto simp: Cons.IH)
qed

lemma plain_lit: "plain (lit l)"
  by (induction l) simp_all

lemma plain_delimiters: "plain delimiters"
  by (simp add: delimiters_def plain_lit)

lemma mtch_delimiters:
  "mtch n delimiters s c (\<lambda>s' c'. Some (h s' c')) =
     map_option (\<lambda>s'. h s' c) (delimiter_at s)"
proof -
  have "mtch n delimiters s c (\<lambda>s' c'. Some (h s' c')) =
        mtch 0 delimiters s Map.empty (\<lambda>s' x. map_option (\<lambda>s'. h s' c) (Some s'))"
    using mtch_plain [OF plain_delimiters, of n s c "\<lambda>s' c'. Some (h s' c')" 0 Map.empty]
    by simp
  also have "\<dots> = map_option (\<lambda>s'. h s' c) (delimiter_at s)"
    unfolding delimiter_at_def by (rule mtch_map_option)
  finally show ?thesis .
qed

lemma take_length_dropWhile:
  "take (length s - length (dropWhile P s)) s = takeWhile P s"
proof -
  have "length (takeWhile P s) + length (dropWhile P s) = length s"
    by (metis length_append takeWhile_dropWhile_id)
  then have "length s - length (dropWhile P s) = length (takeWhile P s)"
    by simp
  then show ?thesis
    by (metis append_eq_conv_conj takeWhile_dropWhile_id)
qed

text \<open>The pattern from group 1 on, observed through group 2 alone.\<close>

lemma video_tail:
  "mtch n (Seq (Grp 1 delimiters) (Seq (Grp 2 (Star (NoneOf ''#&?''))) (Star AnyChar)))
        s c (\<lambda>s' c'. Some (c' 2))
   = map_option (\<lambda>s1. Some (takeWhile (\<lambda>x. x \<notin> set ''#&?'') s1)) (delimiter_at s)"
proof -
  have ok: "cls_ok (NoneOf ''#&?'') = (\<lambda>x. x \<notin> set ''#&?'')"
    by (rule ext) simp
  have "mtch n (Seq (Grp 1 delimiters) (Seq (Grp 2 (Star (NoneOf ''#&?''))) (Star AnyChar)))
          s c (\<lambda>s' c'. Some (c' 2))
        = mtch n delimiters s c
            (\<lambda>s1 c1. Some (Some (takeWhile (\<lambda>x. x \<notin> set ''#&?'') s1)))"
    by (simp add: star_total take_length_dropWhile ok del: set_simps)
  then show ?thesis
    by (simp only: mtch_delimiters)
qed

lemma search_bol_short:
  "length s < n \<Longrightarrow> search n (Seq Bol r) s = None"
  by (induction s) auto

lemma match_video_group2:
  "map_option (\<lambda>m. m 2) (match url videoRegExp)
   = map_option (\<lambda>s1. Some (takeWhile (\<lambda>x. x \<notin> set ''#&?'') s1))
       (star AnyChar url delimiter_at)"
proof -
  let ?R = "Seq (Grp 1 delimiters) (Seq (Grp 2 (Star (NoneOf ''#&?''))) (Star AnyChar))"
  let ?k0 = "\<lambda>s' (c::caps). Some (c(0 \<mapsto> take (length url - length s') url))"
  have m: "match url videoRegExp = star AnyChar url (\<lambda>s'. mtch (length url) ?R s' Map.empty ?k0)"
    unfolding match_def videoRegExp_def
    by (cases url) (simp_all add: search_bol_short split: option.splits)
  have "map_option (\<lambda>m. m 2) (match url videoRegExp)
        = star AnyChar url (\<lambda>s'. map_option (\<lambda>m. m 2) (mtch (length url) ?R s' Map.empty ?k0))"
    unfolding m by (simp only: star_map_option)
  also have "\<dots> = star AnyChar url (\<lambda>s'. mtch (length url) ?R s' Map.empty (\<lambda>s' c'. Some (c' 2)))"
    by (simp only: mtch_map_option [symmetric]) simp
  also have "\<dots> = star AnyChar url (\<lambda>s'. map_option (\<lambda>s1. Some (takeWhile (\<lambda>x. x \<notin> set ''#&?'') s1)) (delimiter_at s'))"
    by (simp only: video_tail)
  finally show ?thesis by (simp only: star_map_option)
qed

text \<open>What \<open>getYouTubeID\<close> computes: the text after the last delimiter that the leading
  \<open>.*\<close> can reach, cut at the first of \<open>#\<close>, \<open>&\<close>, \<open>?\<close>, if that has 11 characters.\<close>

lemma getYouTubeID_eq:
  "getYouTubeID url =
     (case star AnyChar url delimiter_at of
        None \<Rightarrow> Inr None
      | Some s1 \<Rightarrow>
          if length (takeWhile (\<lambda>x. x \<notin> set ''#&?'') s1) = 11
          then Inr (Some (takeWhile (\<lambda>x. x \<notin> set ''#&?'') s1)) else Inr None)"
proof (cases "match url videoRegExp")
  case None
  with match_video_group2 [of url] show ?thesis
    by (simp add: getYouTubeID_def del: set_simps)
next
  case (Some m)
  with match_video_group2 [of url] show ?thesis
    by (cases "star AnyChar url delimiter_at") (auto simp add: getYouTubeID_def simp del: set_simps)
qed


lemma getYouTubeID_total: "\<exists>r. getYouTubeID url = Inr r"
  by (simp add: getYouTubeID_eq split: option.splits del: set_simps)

lemma getYouTubeID_Some_length: "getYouTubeID url = Inr (Some v) \<Longrightarrow> length v = 11"
  by (auto simp add: getYouTubeID_def split: option.splits if_splits)

lemma star_prefix:
  "\<forall>x\<in>set pre. cls_ok c x \<Longrightarrow> star c t k = Some r \<Longrightarrow> star c (pre @ t) k = Some r"
  by (induction pre) auto

lemma takeWhile_id_part:
  assumes "\<forall>x\<in>set v. P x" and "rest = [] \<or> \<not> P (hd rest)"
  shows "takeWhile P (v @ rest) = v"
proof -
  have "takeWhile P (v @ rest) = v @ takeWhile P rest"
    using assms(1) by (simp add: takeWhile_append2)
  moreover have "takeWhile P rest = []"
    using assms(2) by (cases rest) auto
  ultimately show ?thesis by simp
qed

lemma delimiter_at_watch: "delimiter_at (''watch?v='' @ s) = Some s"
  by (simp add: delimiter_at_def delimiters_def)

lemma delimiter_at_embed: "delimiter_at (''embed/'' @ s) = Some s"
  by (simp add: delimiter_at_def delimiters_def)

lemma delimiter_at_v: "delimiter_at (''v/'' @ s) = Some s"
  by (simp add: delimiter_at_def delimiters_def)

lemma delimiter_at_amp: "delimiter_at (''&v='' @ s) = Some s"
  by (simp add: delimiter_at_def delimiters_def)

lemma delimiter_at_short: "\<not> line_terminator x \<Longrightarrow> delimiter_at (''youtu'' @ x # ''be/'' @ s) = Some s"
  by (simp add: delimiter_at_def delimiters_def)

lemma delimiter_at_user: "word_char x \<Longrightarrow> delimiter_at (''u/'' @ x # ''/'' @ s) = Some s"
  by (simp add: delimiter_at_def delimiters_def)

lemma mtch_lit_Some:
  "mtch n (lit l) s c k = Some y \<longleftrightarrow> (\<exists>t. s = l @ t \<and> k t c = Some y)"
proof
  assume "mtch n (lit l) s c k = Some y"
  then have "take (length l) s = l" "k (drop (length l) s) c = Some y"
    by (simp_all add: mtch_lit split: if_splits)
  then show "\<exists>t. s = l @ t \<and> k t c = Some y"
    by (intro exI [of _ "drop (length l) s"]) (metis append_take_drop_id)
next
  assume "\<exists>t. s = l @ t \<and> k t c = Some y"
  then show "mtch n (lit l) s c k = Some y"
    by (auto simp add: mtch_lit)
qed

text \<open>Conversely, a match of group 1 at the head of \<open>s\<close> is one of these six texts.\<close>

lemma delimiter_at_Some:
  assumes "delimiter_at s = Some r"
  shows "(\<exists>x. \<not> line_terminator x \<and> s = ''youtu'' @ x # ''be/'' @ r)
     \<or> s = ''v/'' @ r
     \<or> (\<exists>x. word_char x \<and> s = ''u/'' @ x # ''/'' @ r)
     \<or> s = ''embed/'' @ r \<or> s = ''watch?v='' @ r \<or> s = ''&v='' @ r"
proof -
  let ?k = "\<lambda>s' (c::caps). Some s'"
  from assms consider
      "mtch 0 (Seq (lit ''youtu'') (Seq (One AnyChar) (lit ''be/''))) s Map.empty ?k = Some r"
    | "mtch 0 (lit ''v/'') s Map.empty ?k = Some r"
    | "mtch 0 (Seq (lit ''u/'') (Seq (One WordChar) (lit ''/''))) s Map.empty ?k = Some r"
    | "mtch 0 (lit ''embed/'') s Map.empty ?k = Some r"
    | "mtch 0 (lit ''watch?v='') s Map.empty ?k = Some r"
    | "mtch 0 (lit ''&v='') s Map.empty ?k = Some r"
    unfolding delimiter_at_def delimiters_def mtch.simps(6)
    by (auto split: option.splits)
  then show ?thesis
  proof cases
    case 1
    then obtain t where "s = ''youtu'' @ t"
      "mtch 0 (Seq (One AnyChar) (lit ''be/'')) t Map.empty ?k = Some r"
      unfolding mtch.simps(5) [of 0 "lit ''youtu''"] mtch_lit_Some by blast
    moreover from this(2) obtain x t' where "t = x # t'" "\<not> line_terminator x"
      "mtch 0 (lit ''be/'') t' Map.empty ?k = Some r"
      unfolding mtch.simps(5) [of 0 "One AnyChar"]
      by (cases t) (auto split: if_splits)
    moreover from this(3) have "t' = ''be/'' @ r"
      unfolding mtch_lit_Some by blast
    ultimately show ?thesis by blast
  next
    case 2
    then have "s = ''v/'' @ r" unfolding mtch_lit_Some by blast
    then show ?thesis by blast
  next
    case 3
    then obtain t where "s = ''u/'' @ t"
      "mtch 0 (Seq (One WordChar) (lit ''/'')) t Map.empty ?k = Some r"
      unfolding mtch.simps(5) [of 0 "lit ''u/''"] mtch_lit_Some by blast
    moreover from this(2) obtain x t' where "t = x # t'" "word_char x"
      "mtch 0 (lit ''/'') t' Map.empty ?k = Some r"
      unfolding mtch.simps(5) [of 0 "One WordChar"]
      by (cases t) (auto split: if_splits)
    moreover from this(3) have "t' = ''/'' @ r"
      unfolding mtch_lit_Some by blast
    ultimately show ?thesis by blast
  next
    case 4
    then have "s = ''embed/'' @ r" unfolding mtch_lit_Some by blast
    then show ?thesis by blast
  next
    case 5
    then have "s = ''watch?v='' @ r" unfolding mtch_lit_Some by blast
    then show ?thesis by blast
  next
    case 6
    then have "s = ''&v='' @ r" unfolding mtch_lit_Some by blast
    then show ?thesis by blast
  qed
qed

lemma search_Some:
  "search n r s = Some m \<Longrightarrow>
   \<exists>t. mtch n r t Map.empty (\<lambda>s' c. Some (c(0 \<mapsto> take (length t - length s') t))) = Some m"
proof (induction s)
  case Nil
  have "(\<lambda>s' (c::caps). Some (c(0 \<mapsto> take (length ([]::string) - length (s'::string)) [])))
        = (\<lambda>s' c. Some (c(0 \<mapsto> [])))"
    by simp
  with Nil have "mtch n r [] Map.empty
      (\<lambda>s' c. Some (c(0 \<mapsto> take (length ([]::string) - length s') []))) = Some m"
    by (simp only: search.simps)
  then show ?case by (rule exI)
next
  case (Cons x xs)
  show ?case
  proof (cases "mtch n r (x # xs) Map.empty
             (\<lambda>s' c. Some (c(0 \<mapsto> take (length (x # xs) - length s') (x # xs))))")
    case None
    with Cons show ?thesis by simp
  next
    case (Some m')
    with Cons.prems have "m' = m" by simp
    with Some have "mtch n r (x # xs) Map.empty
             (\<lambda>s' c. Some (c(0 \<mapsto> take (length (x # xs) - length s') (x # xs)))) = Some m"
      by (simp only:)
    then show ?thesis by (rule exI)
  qed
qed

lemma getYouTubePlaylistID_nonempty:
  assumes "getYouTubePlaylistID url = Some p"
  shows "p \<noteq> []"
proof -
  from assms obtain m where m: "match url playlistRegExp = Some m" "m 1 = Some p"
    by (auto simp: getYouTubePlaylistID_def split: option.splits)
  from search_Some [OF m(1) [unfolded match_def]] obtain t where
    t: "mtch (length url) playlistRegExp t Map.empty
          (\<lambda>s' c. Some (c(0 \<mapsto> take (length t - length s') t))) = Some m"
    by blast
  from t obtain ys where ys:
    "mtch (length url) (Grp 1 (plus_rx (NoneOf ''#&?''))) ys Map.empty
          (\<lambda>s' c. Some (c(0 \<mapsto> take (length t - length s') t))) = Some m"
    by (auto simp: playlistRegExp_def mtch_lit split: list.splits if_splits simp del: set_simps)
  then obtain y zs where zs: "ys = y # zs"
    "star (NoneOf ''#&?'') zs
       (\<lambda>s'. Some ([1 \<mapsto> take (length ys - length s') ys, 0 \<mapsto> take (length t - length s') t]))
     = Some m"
    by (auto simp: plus_rx_def split: list.splits if_splits simp del: set_simps)
  from star_Some [OF zs(2)] obtain s' :: string where s':
    "length s' \<le> length zs"
    "Some [1 \<mapsto> take (length ys - length s') ys, 0 \<mapsto> take (length t - length s') t] = Some m"
    by (elim exE conjE)
  from s'(2) have "m 1 = Some (take (length ys - length s') ys)" by auto
  with m(2) zs(1) s'(1) show ?thesis by auto
qed

lemma delimiter_free_star:
  "delimiter_free s \<Longrightarrow> star AnyChar s delimiter_at = None"
  by (induction s) auto

lemma star_first_char:
  assumes "delimiter_at (x # xs) = Some r" and "delimiter_free xs"
  shows "star AnyChar (x # xs) delimiter_at = Some r"
  using assms by (simp add: delimiter_free_star)

subsection \<open>The length gate of the video id\<close>

text \<open>
  C7. For every string url, \<open>getYouTubeID\<close> returns without throwing; a value other than
  null is group 2 of the match and has exactly 11 characters; a match whose group 2 has any
  other length yields null.
\<close>

theorem getYouTubeID_length_gate:
  "(\<exists>r. getYouTubeID url = Inr r)
   \<and> (\<forall>v. getYouTubeID url = Inr (Some v) \<longrightarrow>
          length v = 11 \<and> map_option (\<lambda>m. m 2) (match url videoRegExp) = Some (Some v))
   \<and> (\<forall>g. map_option (\<lambda>m. m 2) (match url videoRegExp) = Some (Some g) \<and> length g \<noteq> 11 \<longrightarrow>
          getYouTubeID url = Inr None)"
proof -
  have total: "\<exists>r. getYouTubeID url = Inr r"
    by (rule getYouTubeID_total)
  have gate: "length v = 11 \<and> map_option (\<lambda>m. m 2) (match url videoRegExp) = Some (Some v)"
    if "getYouTubeID url = Inr (Some v)" for v
    using that by (auto simp add: getYouTubeID_def split: option.splits if_splits)
  have reject: "getYouTubeID url = Inr None"
    if "map_option (\<lambda>m. m 2) (match url videoRegExp) = Some (Some g) \<and> length g \<noteq> 11" for g
    using that by (auto simp add: getYouTubeID_def split: option.splits)
  from total gate reject show ?thesis by blast
qed

text \<open>
  The gate at work: the canonical url of an 11-character id yields the id, and
  \<open>watch?v=short\<close>, whose group 2 is \<open>short\<close>, yields null.
\<close>

theorem getYouTubeID_length_gate_witness:
  "(getYouTubeID ''https://www.youtube.com/watch?v=dQw4w9WgXcQ'' = Inr (Some ''dQw4w9WgXcQ'')
      \<and> length ''dQw4w9WgXcQ'' = 11)
   \<and> (map_option (\<lambda>m. m 2) (match ''https://www.youtube.com/watch?v=short'' videoRegExp)
         = Some (Some ''short'')
      \<and> getYouTubeID ''https://www.youtube.com/watch?v=short'' = Inr None)
   \<and> getYouTubeID ''watch?v=short'' = Inr None"
proof -
  have a: "getYouTubeID ''https://www.youtube.com/watch?v=dQw4w9WgXcQ'' = Inr (Some ''dQw4w9WgXcQ'')"
    by code_simp
  have b: "map_option (\<lambda>m. m 2) (match ''https://www.youtube.com/watch?v=short'' videoRegExp)
             = Some (Some ''short'')"
    by code_simp
  have c: "map_option (\<lambda>m. m 2) (match ''watch?v=short'' videoRegExp) = Some (Some ''short'')"
    by code_simp
  have n: "length ''short'' \<noteq> 11"
    by simp
  from a getYouTubeID_length_gate [of "''https://www.youtube.com/watch?v=dQw4w9WgXcQ''"]
  have "length ''dQw4w9WgXcQ'' = 11" by blast
  moreover from b n getYouTubeID_length_gate [of "''https://www.youtube.com/watch?v=short''"]
  have "getYouTubeID ''https://www.youtube.com/watch?v=short'' = Inr None" by blast
  moreover from c n getYouTubeID_length_gate [of "''watch?v=short''"]
  have "getYouTubeID ''watch?v=short'' = Inr None" by blast
  ultimately show ?thesis using a b by blast
qed

subsection \<open>The url shapes that yield an id\<close>

text \<open>
  Three urls with an 11-character candidate for which \<open>getYouTubeID\<close> returns null: a
  \<open>v=\<close> query parameter that none of the six delimiters introduces; a short link followed
  by a second delimiter, \<open>&v=\<close>, whose text has 3 characters; a short link after a line
  feed, which the leading \<open>.*\<close> cannot pass.
\<close>

theorem getYouTubeID_shapes_counterexample:
  "length ''dQw4w9WgXcQ'' = 11
   \<and> getYouTubeID ''https://www.youtube.com/?v=dQw4w9WgXcQ'' = Inr None
   \<and> getYouTubeID ''https://youtu.be/dQw4w9WgXcQ?t=1&v=abc'' = Inr None
   \<and> getYouTubeID (CHR 0x0A # ''https://youtu.be/dQw4w9WgXcQ'') = Inr None"
proof -
  have a: "getYouTubeID ''https://www.youtube.com/?v=dQw4w9WgXcQ'' = Inr None"
    by code_simp
  have b: "getYouTubeID ''https://youtu.be/dQw4w9WgXcQ?t=1&v=abc'' = Inr None"
    by code_simp
  have c: "getYouTubeID (CHR 0x0A # ''https://youtu.be/dQw4w9WgXcQ'') = Inr None"
    by code_simp
  from a b c show ?thesis by simp
qed

text \<open>
  C8, amended. Let the url be \<open>pre @ d @ v @ rest\<close>, where \<open>pre\<close> has no line terminator,
  \<open>d\<close> is \<open>youtu.be/\<close>, \<open>v/\<close>, \<open>embed/\<close>, \<open>watch?v=\<close>, \<open>&v=\<close>, or \<open>u/\<close>, a word
  character and \<open>/\<close>, \<open>v\<close> has 11 characters, none of them \<open>#\<close>, \<open>&\<close> or \<open>?\<close>, and \<open>rest\<close>
  is empty or starts with one of these three. Let the first group of the pattern match at
  no position of the url that lies after the first character of \<open>d\<close> and has no line
  terminator between \<open>d\<close> and itself. Then \<open>getYouTubeID\<close> returns \<open>v\<close>.
\<close>

theorem getYouTubeID_shapes:
  assumes pre: "\<forall>x\<in>set pre. \<not> line_terminator x"
    and shape: "d = ''youtu.be/'' \<or> d = ''v/'' \<or> d = ''embed/'' \<or> d = ''watch?v=''
                \<or> d = ''&v='' \<or> (\<exists>x. word_char x \<and> d = ''u/'' @ [x] @ ''/'')"
    and len: "length v = 11"
    and chars: "\<forall>x\<in>set v. x \<notin> set ''#&?''"
    and rest: "rest = [] \<or> hd rest \<in> set ''#&?''"
    and later: "delimiter_free (tl (d @ v @ rest))"
  shows "getYouTubeID (pre @ d @ v @ rest) = Inr (Some v)"
proof -
  have dot: "\<not> line_terminator (CHR ''.'')"
    by (simp add: line_terminator_def)
  from shape obtain x xs where d: "d = x # xs" and at: "delimiter_at (d @ v @ rest) = Some (v @ rest)"
    using delimiter_at_v [of "v @ rest"] delimiter_at_embed [of "v @ rest"]
      delimiter_at_watch [of "v @ rest"] delimiter_at_amp [of "v @ rest"]
      delimiter_at_short [OF dot, of "v @ rest"] delimiter_at_user [of _ "v @ rest"]
    by (elim disjE exE conjE) simp_all
  from d later have "delimiter_free (xs @ v @ rest)" by simp
  with at d have "star AnyChar (d @ v @ rest) delimiter_at = Some (v @ rest)"
    using star_first_char [of x "xs @ v @ rest" "v @ rest"] by simp
  then have "star AnyChar (pre @ d @ v @ rest) delimiter_at = Some (v @ rest)"
    using pre star_prefix [of pre AnyChar "d @ v @ rest" delimiter_at "v @ rest"] by simp
  moreover have "takeWhile (\<lambda>x. x \<notin> set ''#&?'') (v @ rest) = v"
    using chars rest by (intro takeWhile_id_part) auto
  ultimately show ?thesis
    using len by (simp add: getYouTubeID_eq del: set_simps)
qed

theorem getYouTubeID_shapes_witness:
  "getYouTubeID (''https://www.youtube.com/'' @ ''watch?v='' @ ''dQw4w9WgXcQ'' @ ''&t=10s'')
     = Inr (Some ''dQw4w9WgXcQ'')
   \<and> getYouTubeID (''https://'' @ ''youtu.be/'' @ ''dQw4w9WgXcQ'' @ '''')
     = Inr (Some ''dQw4w9WgXcQ'')
   \<and> getYouTubeID (''https://www.youtube.com/user/x#p/'' @ ''u/1/'' @ ''dQw4w9WgXcQ'' @ '''')
     = Inr (Some ''dQw4w9WgXcQ'')"
proof -
  have l1: "delimiter_free (tl (''watch?v='' @ ''dQw4w9WgXcQ'' @ ''&t=10s''))"
    by code_simp
  have l2: "delimiter_free (tl (''youtu.be/'' @ ''dQw4w9WgXcQ'' @ ''''))"
    by code_simp
  have l3: "delimiter_free (tl (''u/1/'' @ ''dQw4w9WgXcQ'' @ ''''))"
    by code_simp
  have p1: "\<forall>x\<in>set ''https://www.youtube.com/''. \<not> line_terminator x"
    by (simp add: line_terminator_def)
  have p2: "\<forall>x\<in>set ''https://''. \<not> line_terminator x"
    by (simp add: line_terminator_def)
  have p3: "\<forall>x\<in>set ''https://www.youtube.com/user/x#p/''. \<not> line_terminator x"
    by (simp add: line_terminator_def)
  have s3: "\<exists>x. word_char x \<and> ''u/1/'' = ''u/'' @ [x] @ ''/''"
    by (simp add: word_char_def)
  have c: "\<forall>x\<in>set ''dQw4w9WgXcQ''. x \<notin> set ''#&?''"
    by simp
  have r1: "''&t=10s'' = [] \<or> hd ''&t=10s'' \<in> set ''#&?''"
    by simp
  have "getYouTubeID (''https://www.youtube.com/'' @ ''watch?v='' @ ''dQw4w9WgXcQ'' @ ''&t=10s'')
          = Inr (Some ''dQw4w9WgXcQ'')"
    by (rule getYouTubeID_shapes [OF p1 _ _ c r1 l1]) simp_all
  moreover have "getYouTubeID (''https://'' @ ''youtu.be/'' @ ''dQw4w9WgXcQ'' @ '''')
          = Inr (Some ''dQw4w9WgXcQ'')"
    by (rule getYouTubeID_shapes [OF p2 _ _ c _ l2]) simp_all
  moreover have "getYouTubeID (''https://www.youtube.com/user/x#p/'' @ ''u/1/'' @ ''dQw4w9WgXcQ'' @ '''')
          = Inr (Some ''dQw4w9WgXcQ'')"
    by (rule getYouTubeID_shapes [OF p3 _ _ c _ l3]) (use s3 in simp_all)
  ultimately show ?thesis by (intro conjI)
qed

section \<open>Properties of the retrier\<close>

declare retryWithBackoff.simps [simp del]

lemma retry_fulfilled:
  "operation (env w) = (Inr v, e') \<Longrightarrow>
   retryWithBackoff this operation k w = (Inr v, w\<lparr>env := e', attempts := Suc (attempts w)\<rparr>)"
  by (subst retryWithBackoff.simps) (simp add: invoke_def)

lemma retry_exhausted:
  "operation (env w) = (Inl err, e') \<Longrightarrow> maxRetries (retryConfig this) \<le> k \<Longrightarrow>
   retryWithBackoff this operation k w = (Inl err, w\<lparr>env := e', attempts := Suc (attempts w)\<rparr>)"
  by (subst retryWithBackoff.simps) (simp add: invoke_def)

lemma retry_again:
  "operation (env w) = (Inl err, e') \<Longrightarrow> k < maxRetries (retryConfig this) \<Longrightarrow>
   retryWithBackoff this operation k w =
     retryWithBackoff this operation (Suc k)
       (delay (min (baseDelay (retryConfig this) * backoffFactor (retryConfig this) ^ k)
                   (maxDelay (retryConfig this)))
              (w\<lparr>env := e', attempts := Suc (attempts w)\<rparr>))"
  by (subst retryWithBackoff.simps) (simp add: invoke_def)

text \<open>
  The shape of every run from retry count \<open>k\<close>: \<open>j + 1\<close> invocations with \<open>j\<close> delays
  between them, the delays those of the retry counts \<open>k, ..., k + j - 1\<close>.
\<close>

lemma retry_trace:
  "\<exists>j. k + j \<le> max k (maxRetries (retryConfig this))
     \<and> attempts (snd (retryWithBackoff this operation k w)) = attempts w + j + 1
     \<and> env (snd (retryWithBackoff this operation k w)) = env_after operation (Suc j) (env w)
     \<and> sleeps (snd (retryWithBackoff this operation k w)) =
         sleeps w @ map (\<lambda>i. min (baseDelay (retryConfig this)
                                     * backoffFactor (retryConfig this) ^ i)
                                  (maxDelay (retryConfig this))) [k ..< k + j]"
proof (induction "maxRetries (retryConfig this) - k" arbitrary: k w)
  case 0
  then have last: "maxRetries (retryConfig this) \<le> k" by simp
  obtain r e' where op: "operation (env w) = (r, e')" by (cases "operation (env w)")
  show ?case
  proof (cases r)
    case (Inl err)
    with op last show ?thesis
      by (intro exI [of _ 0]) (simp add: retry_exhausted)
  next
    case (Inr v)
    with op show ?thesis
      by (intro exI [of _ 0]) (simp add: retry_fulfilled)
  qed
next
  case (Suc n)
  then have more: "k < maxRetries (retryConfig this)" by simp
  let ?d = "\<lambda>i. min (baseDelay (retryConfig this) * backoffFactor (retryConfig this) ^ i)
                     (maxDelay (retryConfig this))"
  obtain r e' where op: "operation (env w) = (r, e')" by (cases "operation (env w)")
  show ?case
  proof (cases r)
    case (Inr v)
    with op show ?thesis
      by (intro exI [of _ 0]) (simp add: retry_fulfilled)
  next
    case (Inl err)
    let ?w = "delay (?d k) (w\<lparr>env := e', attempts := Suc (attempts w)\<rparr>)"
    have step: "retryWithBackoff this operation k w = retryWithBackoff this operation (Suc k) ?w"
      using op Inl more by (simp add: retry_again)
    from Suc.hyps(2) have "n = maxRetries (retryConfig this) - Suc k" by simp
    from Suc.hyps(1) [OF this, of ?w] obtain j where j:
      "Suc k + j \<le> max (Suc k) (maxRetries (retryConfig this))"
      "attempts (snd (retryWithBackoff this operation (Suc k) ?w)) = attempts ?w + j + 1"
      "env (snd (retryWithBackoff this operation (Suc k) ?w)) = env_after operation (Suc j) (env ?w)"
      "sleeps (snd (retryWithBackoff this operation (Suc k) ?w)) =
         sleeps ?w @ map ?d [Suc k ..< Suc k + j]"
      by blast
    have "[k ..< k + Suc j] = k # [Suc k ..< Suc k + j]"
      by (simp add: upt_rec)
    with j more op show ?thesis
      unfolding step by (intro exI [of _ "Suc j"]) (simp add: delay_def)
  qed
qed

lemma retry_all_fail:
  assumes "\<forall>e. isl (fst (operation e))"
  shows "fst (retryWithBackoff this operation k w) =
           fst (operation (env_after operation (maxRetries (retryConfig this) - k) (env w)))
         \<and> attempts (snd (retryWithBackoff this operation k w)) =
             attempts w + (maxRetries (retryConfig this) - k) + 1
         \<and> env (snd (retryWithBackoff this operation k w)) =
             env_after operation (Suc (maxRetries (retryConfig this) - k)) (env w)
         \<and> sleeps (snd (retryWithBackoff this operation k w)) =
             sleeps w @ map (\<lambda>i. min (baseDelay (retryConfig this)
                                         * backoffFactor (retryConfig this) ^ i)
                                      (maxDelay (retryConfig this)))
                          [k ..< k + (maxRetries (retryConfig this) - k)]"
proof (induction "maxRetries (retryConfig this) - k" arbitrary: k w)
  case 0
  then have last: "maxRetries (retryConfig this) \<le> k" by simp
  from assms obtain err e' where op: "operation (env w) = (Inl err, e')"
    by (metis isl_def prod.collapse)
  with last 0 show ?case
    by (simp add: retry_exhausted)
next
  case (Suc n)
  then have more: "k < maxRetries (retryConfig this)" by simp
  let ?d = "\<lambda>i. min (baseDelay (retryConfig this) * backoffFactor (retryConfig this) ^ i)
                     (maxDelay (retryConfig this))"
  from assms obtain err e' where op: "operation (env w) = (Inl err, e')"
    by (metis isl_def prod.collapse)
  let ?w = "delay (?d k) (w\<lparr>env := e', attempts := Suc (attempts w)\<rparr>)"
  have step: "retryWithBackoff this operation k w = retryWithBackoff this operation (Suc k) ?w"
    using op more by (simp add: retry_again)
  from Suc.hyps(2) have n: "n = maxRetries (retryConfig this) - Suc k" by simp
  have m: "maxRetries (retryConfig this) - k = Suc n"
    using Suc.hyps(2) by simp
  have "[k ..< k + Suc n] = k # [Suc k ..< Suc k + n]"
    by (simp add: upt_rec)
  with Suc.hyps(1) [OF n, of ?w] op show ?case
    unfolding step m n [symmetric] by (simp add: delay_def)
qed

lemma retry_first_success:
  assumes "\<forall>i<j. isl (fst (operation (env_after operation i (env w))))"
    and "fst (operation (env_after operation j (env w))) = Inr v"
    and "k + j \<le> maxRetries (retryConfig this)"
  shows "fst (retryWithBackoff this operation k w) = Inr v
         \<and> attempts (snd (retryWithBackoff this operation k w)) = attempts w + j + 1
         \<and> env (snd (retryWithBackoff this operation k w)) =
             env_after operation (Suc j) (env w)"
  using assms
proof (induction j arbitrary: k w)
  case 0
  then obtain e' where "operation (env w) = (Inr v, e')"
    by (metis env_after.simps(1) prod.collapse)
  then show ?case by (simp add: retry_fulfilled)
next
  case (Suc j)
  from Suc.prems(1) have "isl (fst (operation (env_after operation 0 (env w))))" by blast
  then obtain err e' where op: "operation (env w) = (Inl err, e')"
    by (metis env_after.simps(1) isl_def prod.collapse)
  let ?d = "\<lambda>i. min (baseDelay (retryConfig this) * backoffFactor (retryConfig this) ^ i)
                     (maxDelay (retryConfig this))"
  let ?w = "delay (?d k) (w\<lparr>env := e', attempts := Suc (attempts w)\<rparr>)"
  have step: "retryWithBackoff this operation k w = retryWithBackoff this operation (Suc k) ?w"
    using op Suc.prems(3) by (simp add: retry_again)
  have e: "env ?w = e'" by (simp add: delay_def)
  have a: "\<forall>i<j. isl (fst (operation (env_after operation i (env ?w))))"
  proof (intro allI impI)
    fix i assume "i < j"
    with Suc.prems(1) have "isl (fst (operation (env_after operation (Suc i) (env w))))" by auto
    with op e show "isl (fst (operation (env_after operation i (env ?w))))" by simp
  qed
  have b: "fst (operation (env_after operation j (env ?w))) = Inr v"
    using Suc.prems(2) op e by simp
  have c: "Suc k + j \<le> maxRetries (retryConfig this)"
    using Suc.prems(3) by simp
  from Suc.IH [OF a b c] op e show ?case
    unfolding step by (simp add: delay_def)
qed

text \<open>A value the retrier returns is a value some invocation returned.\<close>

lemma retry_result:
  "retryWithBackoff this operation k w = (Inr v, w') \<Longrightarrow>
   \<exists>e. operation e = (Inr v, env w')"
proof (induction "maxRetries (retryConfig this) - k" arbitrary: k w)
  case 0
  then have last: "maxRetries (retryConfig this) \<le> k" by simp
  obtain r e' where op: "operation (env w) = (r, e')" by (cases "operation (env w)")
  show ?case
  proof (cases r)
    case (Inl err)
    with op last 0 show ?thesis by (simp add: retry_exhausted)
  next
    case (Inr x)
    with op 0 show ?thesis by (auto simp add: retry_fulfilled)
  qed
next
  case (Suc n)
  then have more: "k < maxRetries (retryConfig this)" by simp
  obtain r e' where op: "operation (env w) = (r, e')" by (cases "operation (env w)")
  show ?case
  proof (cases r)
    case (Inr x)
    with op Suc.prems show ?thesis by (auto simp add: retry_fulfilled)
  next
    case (Inl err)
    from Suc.hyps(2) have n: "n = maxRetries (retryConfig this) - Suc k" by simp
    from op Inl more Suc.prems show ?thesis
      by (simp add: retry_again Suc.hyps(1) [OF n])
  qed
qed

lemma retry_fails:
  "\<forall>e. isl (fst (operation e)) \<Longrightarrow> isl (fst (retryWithBackoff this operation k w))"
  using retry_all_fail [of operation this k w] by simp

subsection \<open>Number of attempts\<close>

text \<open>
  C2. An operation that fails on every invocation is invoked exactly \<open>maxRetries + 1\<close> times
  (4 times by the exported instance), and the retrier then fails with the error of the last
  invocation. If the invocations before number \<open>j\<close> (counted from 0, \<open>j \<le> maxRetries\<close>)
  fail and invocation \<open>j\<close> returns \<open>v\<close>, the retrier returns \<open>v\<close> after exactly \<open>j + 1\<close>
  invocations, in the state this invocation left.
\<close>

theorem retryWithBackoff_attempts:
  "((\<forall>e. isl (fst (operation e))) \<longrightarrow>
      isl (fst (retryWithBackoff this operation 0 w))
      \<and> fst (retryWithBackoff this operation 0 w) =
          fst (operation (env_after operation (maxRetries (retryConfig this)) (env w)))
      \<and> attempts (snd (retryWithBackoff this operation 0 w)) =
          attempts w + (maxRetries (retryConfig this) + 1)
      \<and> env (snd (retryWithBackoff this operation 0 w)) =
          env_after operation (maxRetries (retryConfig this) + 1) (env w)
      \<and> attempts (snd (retryWithBackoff apiService operation 0 w)) = attempts w + 4)
   \<and> (\<forall>j v. j \<le> maxRetries (retryConfig this)
          \<and> (\<forall>i<j. isl (fst (operation (env_after operation i (env w)))))
          \<and> fst (operation (env_after operation j (env w))) = Inr v \<longrightarrow>
        fst (retryWithBackoff this operation 0 w) = Inr v
        \<and> attempts (snd (retryWithBackoff this operation 0 w)) = attempts w + (j + 1)
        \<and> env (snd (retryWithBackoff this operation 0 w)) =
            env_after operation (j + 1) (env w))"
proof (intro conjI impI allI)
  assume fails: "\<forall>e. isl (fst (operation e))"
  from retry_all_fail [OF fails, of this 0 w]
  show "fst (retryWithBackoff this operation 0 w) =
          fst (operation (env_after operation (maxRetries (retryConfig this)) (env w)))"
    and "attempts (snd (retryWithBackoff this operation 0 w)) =
          attempts w + (maxRetries (retryConfig this) + 1)"
    and "env (snd (retryWithBackoff this operation 0 w)) =
          env_after operation (maxRetries (retryConfig this) + 1) (env w)"
    by simp_all
  with fails show "isl (fst (retryWithBackoff this operation 0 w))"
    by simp
  from retry_all_fail [OF fails, of apiService 0 w]
  show "attempts (snd (retryWithBackoff apiService operation 0 w)) = attempts w + 4"
    by (simp add: apiService_def)
next
  fix j v
  assume h: "j \<le> maxRetries (retryConfig this)
          \<and> (\<forall>i<j. isl (fst (operation (env_after operation i (env w)))))
          \<and> fst (operation (env_after operation j (env w))) = Inr v"
  then have "0 + j \<le> maxRetries (retryConfig this)" by simp
  from retry_first_success [OF _ _ this, of operation w v] h
  show "fst (retryWithBackoff this operation 0 w) = Inr v"
    and "attempts (snd (retryWithBackoff this operation 0 w)) = attempts w + (j + 1)"
    and "env (snd (retryWithBackoff this operation 0 w)) = env_after operation (j + 1) (env w)"
    by simp_all
qed

text \<open>
  Two operations on a counter: one that always fails, and one that fails twice and then
  returns the number of the invocations before it.
\<close>

theorem retryWithBackoff_attempts_witness:
  "attempts (snd (retryWithBackoff apiService (\<lambda>n::nat. (Inl FetchFailed :: exn + nat, Suc n)) 0
       \<lparr>env = 0, attempts = 0, sleeps = []\<rparr>)) = 4
   \<and> fst (retryWithBackoff apiService (\<lambda>n::nat. (Inl FetchFailed :: exn + nat, Suc n)) 0
       \<lparr>env = 0, attempts = 0, sleeps = []\<rparr>) = Inl FetchFailed
   \<and> fst (retryWithBackoff apiService
            (\<lambda>n::nat. (if n < 2 then Inl AbortError else Inr n, Suc n)) 0
            \<lparr>env = 0, attempts = 0, sleeps = []\<rparr>) = Inr 2
   \<and> attempts (snd (retryWithBackoff apiService
            (\<lambda>n::nat. (if n < 2 then Inl AbortError else Inr n, Suc n)) 0
            \<lparr>env = 0, attempts = 0, sleeps = []\<rparr>)) = 3"
proof -
  let ?fail = "\<lambda>n::nat. (Inl FetchFailed :: exn + nat, Suc n)"
  let ?flaky = "\<lambda>n::nat. (if n < 2 then Inl AbortError else Inr n :: exn + nat, Suc n)"
  let ?w = "\<lparr>env = 0::nat, attempts = 0, sleeps = []\<rparr>"
  have f: "\<forall>e. isl (fst (?fail e))"
    by simp
  have a: "(2::nat) \<le> maxRetries (retryConfig apiService)"
    by (simp add: apiService_def)
  have e: "env_after ?flaky i 0 = i" for i
  proof -
    have "env_after ?flaky i k = k + i" for k
      by (induction i arbitrary: k) simp_all
    from this [of 0] show ?thesis by simp
  qed
  have b: "\<forall>i<2. isl (fst (?flaky (env_after ?flaky i (env ?w))))"
    by (simp add: e)
  have c: "fst (?flaky (env_after ?flaky 2 (env ?w))) = Inr 2"
    by (simp add: e)
  from f retryWithBackoff_attempts [of ?fail apiService ?w]
  have "attempts (snd (retryWithBackoff apiService ?fail 0 ?w)) = 4"
    and "fst (retryWithBackoff apiService ?fail 0 ?w) = fst (?fail (env_after ?fail 3 0))"
    by (simp_all add: apiService_def)
  moreover from a b c retryWithBackoff_attempts [of ?flaky apiService ?w]
  have "fst (retryWithBackoff apiService ?flaky 0 ?w) = Inr 2"
    and "attempts (snd (retryWithBackoff apiService ?flaky 0 ?w)) = 3"
    by auto
  ultimately show ?thesis by simp
qed

subsection \<open>Backoff delays\<close>

text \<open>
  C3. In every run of the retrier the delay before retry number \<open>k\<close> (counted from 0) is
  \<open>min (baseDelay * backoffFactor ^ k) maxDelay\<close>: the delays of a run with \<open>n\<close> invocations
  are those of \<open>k = 0, ..., n - 2\<close>, and none exceeds \<open>maxDelay\<close>. An operation that always
  fails waits 1000, 2000, 4000 ms under the exported instance, and 1000, 2000, 4000, 8000,
  10000 ms when \<open>maxRetries\<close> is 5.
\<close>

theorem retryWithBackoff_delays:
  "sleeps (snd (retryWithBackoff this operation 0 w)) =
     sleeps w @ map (\<lambda>k. min (baseDelay (retryConfig this) * backoffFactor (retryConfig this) ^ k)
                              (maxDelay (retryConfig this)))
                    [0 ..< attempts (snd (retryWithBackoff this operation 0 w)) - attempts w - 1]
   \<and> (\<forall>d \<in> set (drop (length (sleeps w)) (sleeps (snd (retryWithBackoff this operation 0 w)))).
         d \<le> maxDelay (retryConfig this))
   \<and> ((\<forall>e. isl (fst (operation e))) \<longrightarrow>
        sleeps (snd (retryWithBackoff apiService operation 0 w)) = sleeps w @ [1000, 2000, 4000]
        \<and> sleeps (snd (retryWithBackoff
             (apiService\<lparr>retryConfig := (retryConfig apiService)\<lparr>maxRetries := 5\<rparr>\<rparr>) operation 0 w))
            = sleeps w @ [1000, 2000, 4000, 8000, 10000])"
proof (intro conjI impI)
  from retry_trace [of 0 this operation w] obtain j where j:
    "attempts (snd (retryWithBackoff this operation 0 w)) = attempts w + j + 1"
    "sleeps (snd (retryWithBackoff this operation 0 w)) =
       sleeps w @ map (\<lambda>i. min (baseDelay (retryConfig this) * backoffFactor (retryConfig this) ^ i)
                                (maxDelay (retryConfig this))) [0 ..< 0 + j]"
    by blast
  from j show "sleeps (snd (retryWithBackoff this operation 0 w)) =
     sleeps w @ map (\<lambda>k. min (baseDelay (retryConfig this) * backoffFactor (retryConfig this) ^ k)
                              (maxDelay (retryConfig this)))
                    [0 ..< attempts (snd (retryWithBackoff this operation 0 w)) - attempts w - 1]"
    by simp
  from j(2) show "\<forall>d \<in> set (drop (length (sleeps w)) (sleeps (snd (retryWithBackoff this operation 0 w)))).
         d \<le> maxDelay (retryConfig this)"
    by auto
next
  assume fails: "\<forall>e. isl (fst (operation e))"
  have three: "[0 ..< 3] = [0, 1, 2::nat]"
    by (simp add: upt_rec)
  from retry_all_fail [OF fails, of apiService 0 w]
  show "sleeps (snd (retryWithBackoff apiService operation 0 w)) = sleeps w @ [1000, 2000, 4000]"
    by (simp add: apiService_def three)
next
  assume fails: "\<forall>e. isl (fst (operation e))"
  have five: "[0 ..< 5] = [0, 1, 2, 3, 4::nat]"
    by (simp add: upt_rec)
  from retry_all_fail [OF fails,
      of "apiService\<lparr>retryConfig := (retryConfig apiService)\<lparr>maxRetries := 5\<rparr>\<rparr>" 0 w]
  show "sleeps (snd (retryWithBackoff
             (apiService\<lparr>retryConfig := (retryConfig apiService)\<lparr>maxRetries := 5\<rparr>\<rparr>) operation 0 w))
            = sleeps w @ [1000, 2000, 4000, 8000, 10000]"
    by (simp add: apiService_def five)
qed

theorem retryWithBackoff_delays_witness:
  "sleeps (snd (retryWithBackoff apiService (\<lambda>n::nat. (Inl FetchFailed :: exn + nat, Suc n)) 0
       \<lparr>env = 0, attempts = 0, sleeps = []\<rparr>)) = [1000, 2000, 4000]
   \<and> (1000::real) \<le> 10000 \<and> (2000::real) \<le> 10000 \<and> (4000::real) \<le> 10000
   \<and> sleeps (snd (retryWithBackoff
        (apiService\<lparr>retryConfig := (retryConfig apiService)\<lparr>maxRetries := 5\<rparr>\<rparr>)
        (\<lambda>n::nat. (Inl FetchFailed :: exn + nat, Suc n)) 0
        \<lparr>env = 0, attempts = 0, sleeps = []\<rparr>)) = [1000, 2000, 4000, 8000, 10000]"
proof -
  let ?fail = "\<lambda>n::nat. (Inl FetchFailed :: exn + nat, Suc n)"
  let ?w = "\<lparr>env = 0::nat, attempts = 0, sleeps = []\<rparr>"
  have f: "\<forall>e. isl (fst (?fail e))"
    by simp
  from f retryWithBackoff_delays [of apiService ?fail ?w]
  have s: "sleeps (snd (retryWithBackoff apiService ?fail 0 ?w)) = sleeps ?w @ [1000, 2000, 4000]"
    and t: "sleeps (snd (retryWithBackoff
        (apiService\<lparr>retryConfig := (retryConfig apiService)\<lparr>maxRetries := 5\<rparr>\<rparr>) ?fail 0 ?w))
        = sleeps ?w @ [1000, 2000, 4000, 8000, 10000]"
    and b: "\<forall>d \<in> set (drop (length (sleeps ?w)) (sleeps (snd (retryWithBackoff apiService ?fail 0 ?w)))).
         d \<le> maxDelay (retryConfig apiService)"
    by blast+
  from b have "(1000::real) \<le> 10000 \<and> (2000::real) \<le> 10000 \<and> (4000::real) \<le> 10000"
    unfolding s by (simp add: apiService_def)
  with s t show ?thesis
    by simp
qed

section \<open>Properties of the resolver\<close>

lemma bnd_Inr: "bnd x f = Inr y \<longleftrightarrow> (\<exists>v. x = Inr v \<and> f v = Inr y)"
  by (cases x) simp_all

lemma truthy_videoId: "getYouTubeID url = Inr v \<Longrightarrow> truthy_id v = (v \<noteq> None)"
  by (cases v) (auto dest: getYouTubeID_Some_length)

lemma truthy_playlistId: "truthy_id (getYouTubePlaylistID url) = (getYouTubePlaylistID url \<noteq> None)"
  by (cases "getYouTubePlaylistID url") (auto dest: getYouTubePlaylistID_nonempty)

lemma fetchWithTimeout_env:
  "snd (fetchWithTimeout net url timeout h) = h @ [\<lparr>req_url = url, req_timeout = timeout\<rparr>]"
  by (simp add: fetchWithTimeout_def Let_def split: fetch_outcome.splits)

lemma fetchWithTimeout_Inr:
  "fetchWithTimeout net url timeout h = (Inr resp, h') \<longleftrightarrow>
     net h \<lparr>req_url = url, req_timeout = timeout\<rparr> = Responded resp
     \<and> h' = h @ [\<lparr>req_url = url, req_timeout = timeout\<rparr>]"
  by (auto simp add: fetchWithTimeout_def Let_def split: fetch_outcome.splits)

lemma playlist_operation_env:
  "snd (fetchPlaylistData_operation net url h) =
     h @ [\<lparr>req_url = ''https://api.youtubemultidownloader.com/playlist?url=''
                      @ encodeURIComponent url, req_timeout = 10000\<rparr>]"
proof -
  let ?u = "''https://api.youtubemultidownloader.com/playlist?url='' @ encodeURIComponent url"
  obtain r h' where f: "fetchWithTimeout net ?u 10000 h = (r, h')"
    by (cases "fetchWithTimeout net ?u 10000 h")
  with fetchWithTimeout_env [of net ?u 10000 h]
  have "h' = h @ [\<lparr>req_url = ?u, req_timeout = 10000\<rparr>]" by simp
  with f show ?thesis
    by (cases r) (simp_all add: fetchPlaylistData_operation_def)
qed

lemma noembed_operation_env:
  "snd (fetchVideoDataFromNoEmbed_operation net url h) =
     h @ [\<lparr>req_url = ''https://noembed.com/embed?url='' @ encodeURIComponent url,
           req_timeout = 10000\<rparr>]"
proof -
  let ?u = "''https://noembed.com/embed?url='' @ encodeURIComponent url"
  obtain r h' where f: "fetchWithTimeout net ?u 10000 h = (r, h')"
    by (cases "fetchWithTimeout net ?u 10000 h")
  with fetchWithTimeout_env [of net ?u 10000 h]
  have "h' = h @ [\<lparr>req_url = ?u, req_timeout = 10000\<rparr>]" by simp
  with f show ?thesis
    by (cases r) (simp_all add: fetchVideoDataFromNoEmbed_operation_def)
qed

lemma playlist_operation_primary:
  "fetchPlaylistData_operation net url h = (Inr r, h') \<Longrightarrow>
   source r = primary \<and> success r \<and> error r = None"
  by (auto simp add: fetchPlaylistData_operation_def bnd_Inr
           split: prod.splits sum.splits if_splits)

lemma noembed_operation_primary:
  "fetchVideoDataFromNoEmbed_operation net url h = (Inr r, h') \<Longrightarrow>
   source r = primary \<and> success r \<and> error r = None"
  by (auto simp add: fetchVideoDataFromNoEmbed_operation_def bnd_Inr
           split: prod.splits sum.splits if_splits)

lemma env_after_append:
  "(\<And>h. snd (operation h) = h @ [rq]) \<Longrightarrow> env_after operation n h = h @ replicate n rq"
  by (induction n arbitrary: h) (simp_all add: replicate_app_Cons_same)

text \<open>A run of the retrier on an operation that issues the request \<open>rq\<close> once.\<close>

lemma retry_requests:
  assumes "\<And>h. snd (operation h) = h @ [rq]"
  shows "\<exists>j. env (snd (retryWithBackoff this operation k w)) = env w @ replicate (Suc j) rq"
proof -
  from retry_trace [of k this operation w] obtain j where
    "env (snd (retryWithBackoff this operation k w)) = env_after operation (Suc j) (env w)"
    by blast
  with env_after_append [of operation rq "Suc j" "env w", OF assms] show ?thesis
    by (intro exI [of _ j]) simp
qed

lemma extractTitleFromUrl_eq:
  "extractTitleFromUrl url =
     Inr (case getYouTubeID url of
            Inr (Some v) \<Rightarrow> ''YouTube Video ('' @ v @ '')''
          | _ \<Rightarrow> (case getYouTubePlaylistID url of
                    Some p \<Rightarrow> ''YouTube Playlist ('' @ p @ '')''
                  | None \<Rightarrow> ''YouTube Content''))"
proof -
  from getYouTubeID_total [of url] obtain v where v: "getYouTubeID url = Inr v" by blast
  show ?thesis
  proof (cases v)
    case None
    with v truthy_playlistId [of url] show ?thesis
      by (cases "getYouTubePlaylistID url") (simp_all add: extractTitleFromUrl_def)
  next
    case (Some x)
    with v truthy_videoId [of url v] show ?thesis
      by (simp add: extractTitleFromUrl_def)
  qed
qed

lemma fetchWithFallback_eq:
  assumes "getYouTubeID url = Inr videoId"
  shows "fetchWithFallback url videoId =
     \<lparr>data = \<lparr>title = Str (case videoId of
                            Some v \<Rightarrow> ''YouTube Video ('' @ v @ '')''
                          | None \<Rightarrow> (case getYouTubePlaylistID url of
                                      Some p \<Rightarrow> ''YouTube Playlist ('' @ p @ '')''
                                    | None \<Rightarrow> ''YouTube Content'')),
              thumbnailUrl = Str (case videoId of
                                   Some v \<Rightarrow> ''https://img.youtube.com/vi/'' @ v @ ''/mqdefault.jpg''
                                 | None \<Rightarrow> ''placeholder'')\<rparr>,
      success = True, error = None, source = fallback\<rparr>"
  using assms truthy_videoId [OF assms]
  by (cases videoId) (simp_all add: fetchWithFallback_def extractTitleFromUrl_eq)

lemma fetchWithFallback_success:
  "success (fetchWithFallback url v) \<and> error (fetchWithFallback url v) = None
   \<and> source (fetchWithFallback url v) = fallback"
  by (simp add: fetchWithFallback_def extractTitleFromUrl_eq Let_def)

text \<open>\<open>fetchVideoData\<close> in terms of the lookup on the path taken.\<close>

lemma fetchVideoData_eq:
  assumes "getYouTubeID url = Inr videoId"
  shows "fetchVideoData this net url w =
     (case (if getYouTubePlaylistID url \<noteq> None \<and> videoId = None
            then fetchPlaylistData this net url w
            else fetchVideoDataFromNoEmbed this net url w) of
        (Inr r, w') \<Rightarrow> (Inr r, w')
      | (Inl e, w') \<Rightarrow> (Inr (fetchWithFallback url videoId), w'))"
  using assms truthy_videoId [OF assms] truthy_playlistId [of url]
  by (simp add: fetchVideoData_def)

subsection \<open>The resolver always returns a result\<close>

text \<open>
  C1. For every url and every behaviour of the network, \<open>fetchVideoData\<close> fulfils: its
  result is either a value that an invocation of the playlist or the video lookup returned,
  tagged primary and successful, or the result of \<open>fetchWithFallback\<close> for the url and
  the extracted video id.
\<close>

theorem fetchVideoData_never_throws:
  "\<exists>r w'. fetchVideoData this net url w = (Inr r, w')
     \<and> ((source r = primary \<and> success r
          \<and> (\<exists>h. fst (fetchPlaylistData_operation net url h) = Inr r
                 \<or> fst (fetchVideoDataFromNoEmbed_operation net url h) = Inr r))
        \<or> (\<exists>videoId. getYouTubeID url = Inr videoId \<and> r = fetchWithFallback url videoId))"
proof -
  from getYouTubeID_total [of url] obtain videoId where v: "getYouTubeID url = Inr videoId"
    by blast
  let ?lookup = "if getYouTubePlaylistID url \<noteq> None \<and> videoId = None
                 then fetchPlaylistData this net url w
                 else fetchVideoDataFromNoEmbed this net url w"
  obtain x w' where l: "?lookup = (x, w')" by (cases ?lookup)
  show ?thesis
  proof (cases x)
    case (Inl e)
    with l v show ?thesis
      by (simp add: fetchVideoData_eq [OF v])
  next
    case (Inr r)
    have "\<exists>h. fst (fetchPlaylistData_operation net url h) = Inr r
             \<or> fst (fetchVideoDataFromNoEmbed_operation net url h) = Inr r"
    proof (cases "getYouTubePlaylistID url \<noteq> None \<and> videoId = None")
      case True
      with l Inr have "retryWithBackoff this (fetchPlaylistData_operation net url) 0 w = (Inr r, w')"
        by (simp add: fetchPlaylistData_def)
      from retry_result [OF this] show ?thesis by (metis fst_conv)
    next
      case False
      with l Inr have "retryWithBackoff this (fetchVideoDataFromNoEmbed_operation net url) 0 w = (Inr r, w')"
        by (auto simp add: fetchVideoDataFromNoEmbed_def)
      from retry_result [OF this] show ?thesis by (metis fst_conv)
    qed
    moreover from this have "source r = primary \<and> success r"
      by (metis playlist_operation_primary noembed_operation_primary prod.collapse)
    moreover from l Inr have "fetchVideoData this net url w = (Inr r, w')"
      by (simp add: fetchVideoData_eq [OF v])
    ultimately show ?thesis by blast
  qed
qed

theorem fetchVideoData_never_throws_witness:
  "\<exists>r w'. fetchVideoData apiService (scripted [])
              ''https://www.youtube.com/watch?v=dQw4w9WgXcQ'' fresh = (Inr r, w')
     \<and> ((source r = primary \<and> success r
          \<and> (\<exists>h. fst (fetchPlaylistData_operation (scripted [])
                        ''https://www.youtube.com/watch?v=dQw4w9WgXcQ'' h) = Inr r
                 \<or> fst (fetchVideoDataFromNoEmbed_operation (scripted [])
                        ''https://www.youtube.com/watch?v=dQw4w9WgXcQ'' h) = Inr r))
        \<or> (\<exists>videoId. getYouTubeID ''https://www.youtube.com/watch?v=dQw4w9WgXcQ'' = Inr videoId
              \<and> r = fetchWithFallback ''https://www.youtube.com/watch?v=dQw4w9WgXcQ'' videoId))"
  by (rule fetchVideoData_never_throws)

subsection \<open>The fallback cannot fail\<close>

text \<open>
  C9. \<open>fetchWithFallback\<close> never takes its \<open>catch\<close> branch: for every url and every video
  id handed to it the result has \<open>success = true\<close> and no \<open>error\<close>. Hence every result of
  \<open>fetchVideoData\<close> has \<open>success = true\<close> and no \<open>error\<close>.
\<close>

theorem fetchVideoData_always_success:
  "(success (fetchWithFallback url v) \<and> error (fetchWithFallback url v) = None)
   \<and> (\<exists>r w'. fetchVideoData this net url w = (Inr r, w') \<and> success r \<and> error r = None)"
proof
  show "success (fetchWithFallback url v) \<and> error (fetchWithFallback url v) = None"
    using fetchWithFallback_success [of url v] by simp
next
  from getYouTubeID_total [of url] obtain videoId where v: "getYouTubeID url = Inr videoId"
    by blast
  let ?lookup = "if getYouTubePlaylistID url \<noteq> None \<and> videoId = None
                 then fetchPlaylistData this net url w
                 else fetchVideoDataFromNoEmbed this net url w"
  obtain x w' where l: "?lookup = (x, w')" by (cases ?lookup)
  show "\<exists>r w'. fetchVideoData this net url w = (Inr r, w') \<and> success r \<and> error r = None"
  proof (cases x)
    case (Inl e)
    with l show ?thesis
      using fetchWithFallback_success [of url videoId]
      by (simp add: fetchVideoData_eq [OF v])
  next
    case (Inr r)
    have "\<exists>h h'. fetchPlaylistData_operation net url h = (Inr r, h')
             \<or> fetchVideoDataFromNoEmbed_operation net url h = (Inr r, h')"
    proof (cases "getYouTubePlaylistID url \<noteq> None \<and> videoId = None")
      case True
      with l Inr have "retryWithBackoff this (fetchPlaylistData_operation net url) 0 w = (Inr r, w')"
        by (simp add: fetchPlaylistData_def)
      from retry_result [OF this] show ?thesis by blast
    next
      case False
      with l Inr have "retryWithBackoff this (fetchVideoDataFromNoEmbed_operation net url) 0 w = (Inr r, w')"
        by (auto simp add: fetchVideoDataFromNoEmbed_def)
      from retry_result [OF this] show ?thesis by blast
    qed
    then have "success r \<and> error r = None"
      using playlist_operation_primary noembed_operation_primary by blast
    moreover from l Inr have "fetchVideoData this net url w = (Inr r, w')"
      by (simp add: fetchVideoData_eq [OF v])
    ultimately show ?thesis by blast
  qed
qed

theorem fetchVideoData_always_success_witness:
  "(success (fetchWithFallback ''not a url'' None)
      \<and> error (fetchWithFallback ''not a url'' None) = None)
   \<and> (\<exists>r w'. fetchVideoData apiService (scripted []) ''not a url'' fresh = (Inr r, w')
         \<and> success r \<and> error r = None)"
  by (rule fetchVideoData_always_success)

subsection \<open>Choice of the lookup\<close>

text \<open>
  C4. One resolution issues at least one request, and all its requests go to one endpoint,
  which the two extracted ids alone determine: the playlist endpoint if a playlist id is
  extracted and no video id is, the video endpoint in every other case. So the playlist
  path is taken if and only if a playlist id and no video id is extracted.
\<close>

theorem fetchVideoData_branch:
  "\<exists>new. new \<noteq> []
     \<and> env (snd (fetchVideoData this net url w)) = env w @ new
     \<and> (getYouTubePlaylistID url \<noteq> None \<and> getYouTubeID url = Inr None \<longrightarrow>
          (\<forall>rq\<in>set new. req_url rq =
             ''https://api.youtubemultidownloader.com/playlist?url='' @ encodeURIComponent url))
     \<and> (\<not> (getYouTubePlaylistID url \<noteq> None \<and> getYouTubeID url = Inr None) \<longrightarrow>
          (\<forall>rq\<in>set new. req_url rq =
             ''https://noembed.com/embed?url='' @ encodeURIComponent url))
     \<and> ((\<exists>rq\<in>set new. req_url rq =
             ''https://api.youtubemultidownloader.com/playlist?url='' @ encodeURIComponent url)
          \<longrightarrow> getYouTubePlaylistID url \<noteq> None \<and> getYouTubeID url = Inr None)"
proof -
  from getYouTubeID_total [of url] obtain videoId where v: "getYouTubeID url = Inr videoId"
    by blast
  let ?P = "\<lparr>req_url = ''https://api.youtubemultidownloader.com/playlist?url=''
                        @ encodeURIComponent url, req_timeout = 10000\<rparr>"
  let ?N = "\<lparr>req_url = ''https://noembed.com/embed?url='' @ encodeURIComponent url,
             req_timeout = 10000\<rparr>"
  have env: "env (snd (fetchVideoData this net url w)) =
     env (snd (if getYouTubePlaylistID url \<noteq> None \<and> videoId = None
               then fetchPlaylistData this net url w
               else fetchVideoDataFromNoEmbed this net url w))"
    by (simp add: fetchVideoData_eq [OF v] split: prod.splits sum.splits)
  show ?thesis
  proof (cases "getYouTubePlaylistID url \<noteq> None \<and> videoId = None")
    case True
    from retry_requests [of "fetchPlaylistData_operation net url" ?P this 0 w]
    obtain j where "env (snd (fetchPlaylistData this net url w)) = env w @ replicate (Suc j) ?P"
      by (auto simp add: fetchPlaylistData_def playlist_operation_env)
    with env True v show ?thesis
      by (intro exI [of _ "replicate (Suc j) ?P"]) simp
  next
    case False
    from retry_requests [of "fetchVideoDataFromNoEmbed_operation net url" ?N this 0 w]
    obtain j where "env (snd (fetchVideoDataFromNoEmbed this net url w)) = env w @ replicate (Suc j) ?N"
      by (auto simp add: fetchVideoDataFromNoEmbed_def noembed_operation_env)
    with env False v show ?thesis
      by (intro exI [of _ "replicate (Suc j) ?N"]) auto
  qed
qed

theorem fetchVideoData_branch_witness:
  "(\<exists>new. new \<noteq> []
      \<and> env (snd (fetchVideoData apiService (scripted [])
           ''https://www.youtube.com/playlist?list=PLrAXtmRdnEQy6nuLMOV7V4r4s_nloyEfR'' fresh)) = new
      \<and> (\<forall>rq\<in>set new. req_url rq =
            ''https://api.youtubemultidownloader.com/playlist?url='' @ encodeURIComponent
              ''https://www.youtube.com/playlist?list=PLrAXtmRdnEQy6nuLMOV7V4r4s_nloyEfR''))
   \<and> (\<exists>new. new \<noteq> []
      \<and> env (snd (fetchVideoData apiService (scripted [])
           ''https://www.youtube.com/watch?v=dQw4w9WgXcQ&list=PLx'' fresh)) = new
      \<and> (\<forall>rq\<in>set new. req_url rq =
            ''https://noembed.com/embed?url='' @ encodeURIComponent
              ''https://www.youtube.com/watch?v=dQw4w9WgXcQ&list=PLx''))"
proof -
  have a: "getYouTubePlaylistID ''https://www.youtube.com/playlist?list=PLrAXtmRdnEQy6nuLMOV7V4r4s_nloyEfR''
             \<noteq> None
           \<and> getYouTubeID ''https://www.youtube.com/playlist?list=PLrAXtmRdnEQy6nuLMOV7V4r4s_nloyEfR''
             = Inr None"
    by code_simp
  have b: "\<not> (getYouTubePlaylistID ''https://www.youtube.com/watch?v=dQw4w9WgXcQ&list=PLx'' \<noteq> None
           \<and> getYouTubeID ''https://www.youtube.com/watch?v=dQw4w9WgXcQ&list=PLx'' = Inr None)"
    by code_simp
  have e: "env fresh = []"
    by (simp add: fresh_def)
  define P where "P = ''https://www.youtube.com/playlist?list=PLrAXtmRdnEQy6nuLMOV7V4r4s_nloyEfR''"
  define V where "V = ''https://www.youtube.com/watch?v=dQw4w9WgXcQ&list=PLx''"
  define R where "R = env (snd (fetchVideoData apiService (scripted []) P fresh))"
  define S where "S = env (snd (fetchVideoData apiService (scripted []) V fresh))"
  from fetchVideoData_branch [of apiService "scripted []" P fresh]
  obtain new where new: "new \<noteq> []" "R = env fresh @ new"
    "getYouTubePlaylistID P \<noteq> None \<and> getYouTubeID P = Inr None \<longrightarrow>
       (\<forall>rq\<in>set new. req_url rq =
          ''https://api.youtubemultidownloader.com/playlist?url='' @ encodeURIComponent P)"
    unfolding R_def by (elim exE conjE)
  from new(3) a have "\<forall>rq\<in>set new. req_url rq =
          ''https://api.youtubemultidownloader.com/playlist?url='' @ encodeURIComponent P"
    unfolding P_def by (rule mp)
  with new(1,2) e have one: "\<exists>new. new \<noteq> [] \<and> R = new
      \<and> (\<forall>rq\<in>set new. req_url rq =
            ''https://api.youtubemultidownloader.com/playlist?url='' @ encodeURIComponent P)"
    by (intro exI [of _ new]) simp
  from fetchVideoData_branch [of apiService "scripted []" V fresh]
  obtain new' where new': "new' \<noteq> []" "S = env fresh @ new'"
    "\<not> (getYouTubePlaylistID V \<noteq> None \<and> getYouTubeID V = Inr None) \<longrightarrow>
       (\<forall>rq\<in>set new'. req_url rq = ''https://noembed.com/embed?url='' @ encodeURIComponent V)"
    unfolding S_def by (elim exE conjE)
  from new'(3) b have "\<forall>rq\<in>set new'. req_url rq =
          ''https://noembed.com/embed?url='' @ encodeURIComponent V"
    unfolding V_def by (rule mp)
  with new'(1,2) e have two: "\<exists>new. new \<noteq> [] \<and> S = new
      \<and> (\<forall>rq\<in>set new. req_url rq = ''https://noembed.com/embed?url='' @ encodeURIComponent V)"
    by (intro exI [of _ new']) simp
  from one two show ?thesis
    unfolding R_def S_def P_def V_def by (rule conjI)
qed

subsection \<open>Content of the fallback result\<close>

text \<open>
  C5. When the lookup on the path taken fails after its retries, \<open>fetchVideoData\<close> returns
  a result with \<open>success = true\<close> and \<open>source = fallback\<close>. With a video id \<open>v\<close> extracted
  the title is \<open>YouTube Video (v)\<close> and the thumbnail is the per-id url; with only a
  playlist id \<open>p\<close> the title is \<open>YouTube Playlist (p)\<close>, with neither it is
  \<open>YouTube Content\<close>, and in both cases the thumbnail is \<open>placeholder\<close>.
\<close>

theorem fetchVideoData_fallback:
  assumes "isl (fst (if getYouTubePlaylistID url \<noteq> None \<and> getYouTubeID url = Inr None
                     then fetchPlaylistData this net url w
                     else fetchVideoDataFromNoEmbed this net url w))"
  shows "\<exists>r w'. fetchVideoData this net url w = (Inr r, w')
     \<and> success r \<and> source r = fallback \<and> error r = None
     \<and> (\<forall>v. getYouTubeID url = Inr (Some v) \<longrightarrow>
           title (data r) = Str (''YouTube Video ('' @ v @ '')'')
           \<and> thumbnailUrl (data r) = Str (''https://img.youtube.com/vi/'' @ v @ ''/mqdefault.jpg''))
     \<and> (\<forall>p. getYouTubeID url = Inr None \<and> getYouTubePlaylistID url = Some p \<longrightarrow>
           title (data r) = Str (''YouTube Playlist ('' @ p @ '')'')
           \<and> thumbnailUrl (data r) = Str ''placeholder'')
     \<and> (getYouTubeID url = Inr None \<and> getYouTubePlaylistID url = None \<longrightarrow>
           title (data r) = Str ''YouTube Content''
           \<and> thumbnailUrl (data r) = Str ''placeholder'')"
proof -
  from getYouTubeID_total [of url] obtain videoId where v: "getYouTubeID url = Inr videoId"
    by blast
  let ?lookup = "if getYouTubePlaylistID url \<noteq> None \<and> videoId = None
                 then fetchPlaylistData this net url w
                 else fetchVideoDataFromNoEmbed this net url w"
  obtain x w' where l: "?lookup = (x, w')" by (cases ?lookup)
  with assms v obtain e where "x = Inl e"
    by (cases x) simp_all
  with l have "?lookup = (Inl e, w')" by simp
  then have "fetchVideoData this net url w = (Inr (fetchWithFallback url videoId), w')"
    by (simp add: fetchVideoData_eq [OF v])
  then show ?thesis
    using v by (cases videoId) (simp_all add: fetchWithFallback_eq)
qed

theorem fetchVideoData_fallback_witness:
  "(\<exists>w'. fetchVideoData apiService (scripted []) ''https://www.youtube.com/watch?v=dQw4w9WgXcQ'' fresh
       = (Inr \<lparr>data = \<lparr>title = Str ''YouTube Video (dQw4w9WgXcQ)'',
                      thumbnailUrl = Str ''https://img.youtube.com/vi/dQw4w9WgXcQ/mqdefault.jpg''\<rparr>,
               success = True, error = None, source = fallback\<rparr>, w'))
   \<and> (\<exists>w'. fetchVideoData apiService (scripted [])
         ''https://www.youtube.com/playlist?list=PLrAXtmRdnEQy6nuLMOV7V4r4s_nloyEfR'' fresh
       = (Inr \<lparr>data = \<lparr>title = Str ''YouTube Playlist (PLrAXtmRdnEQy6nuLMOV7V4r4s_nloyEfR)'',
                      thumbnailUrl = Str ''placeholder''\<rparr>,
               success = True, error = None, source = fallback\<rparr>, w'))
   \<and> (\<exists>w'. fetchVideoData apiService (scripted []) ''not a url'' fresh
       = (Inr \<lparr>data = \<lparr>title = Str ''YouTube Content'', thumbnailUrl = Str ''placeholder''\<rparr>,
               success = True, error = None, source = fallback\<rparr>, w'))"
proof -
  have p: "\<forall>h. isl (fst (fetchPlaylistData_operation (scripted []) url h))" for url
    by (simp add: fetchPlaylistData_operation_def fetchWithTimeout_def scripted_def)
  have n: "\<forall>h. isl (fst (fetchVideoDataFromNoEmbed_operation (scripted []) url h))" for url
    by (simp add: fetchVideoDataFromNoEmbed_operation_def fetchWithTimeout_def scripted_def)
  have fails: "isl (fst (if getYouTubePlaylistID url \<noteq> None \<and> getYouTubeID url = Inr None
                     then fetchPlaylistData apiService (scripted []) url fresh
                     else fetchVideoDataFromNoEmbed apiService (scripted []) url fresh))" for url
    using retry_fails [OF p] retry_fails [OF n]
    by (simp add: fetchPlaylistData_def fetchVideoDataFromNoEmbed_def)
  have a: "getYouTubeID ''https://www.youtube.com/watch?v=dQw4w9WgXcQ'' = Inr (Some ''dQw4w9WgXcQ'')"
    by code_simp
  have b: "getYouTubeID ''https://www.youtube.com/playlist?list=PLrAXtmRdnEQy6nuLMOV7V4r4s_nloyEfR''
             = Inr None
           \<and> getYouTubePlaylistID ''https://www.youtube.com/playlist?list=PLrAXtmRdnEQy6nuLMOV7V4r4s_nloyEfR''
             = Some ''PLrAXtmRdnEQy6nuLMOV7V4r4s_nloyEfR''"
    by code_simp
  have c: "getYouTubeID ''not a url'' = Inr None \<and> getYouTubePlaylistID ''not a url'' = None"
    by code_simp
  define V where "V = ''https://www.youtube.com/watch?v=dQw4w9WgXcQ''"
  define P where "P = ''https://www.youtube.com/playlist?list=PLrAXtmRdnEQy6nuLMOV7V4r4s_nloyEfR''"
  define N where "N = ''not a url''"
  note a' = a [folded V_def] and b' = b [folded P_def] and c' = c [folded N_def]
  have eq: "r = \<lparr>data = \<lparr>title = title (data r), thumbnailUrl = thumbnailUrl (data r)\<rparr>,
                 success = success r, error = error r, source = source r\<rparr>" for r :: api_response
    by simp
  from fetchVideoData_fallback [OF fails, of V] obtain r w' where r:
    "fetchVideoData apiService (scripted []) V fresh = (Inr r, w')"
    "success r" "source r = fallback" "error r = None"
    "\<forall>v. getYouTubeID V = Inr (Some v) \<longrightarrow>
           title (data r) = Str (''YouTube Video ('' @ v @ '')'')
           \<and> thumbnailUrl (data r) = Str (''https://img.youtube.com/vi/'' @ v @ ''/mqdefault.jpg'')"
    by (elim exE conjE)
  from r(5) a' have "title (data r) = Str (''YouTube Video ('' @ ''dQw4w9WgXcQ'' @ '')'')
           \<and> thumbnailUrl (data r) = Str (''https://img.youtube.com/vi/'' @ ''dQw4w9WgXcQ'' @ ''/mqdefault.jpg'')"
    by (elim allE) (erule mp)
  with r(2,3,4) eq [of r]
  have "r = \<lparr>data = \<lparr>title = Str ''YouTube Video (dQw4w9WgXcQ)'',
                      thumbnailUrl = Str ''https://img.youtube.com/vi/dQw4w9WgXcQ/mqdefault.jpg''\<rparr>,
               success = True, error = None, source = fallback\<rparr>"
    by simp
  with r(1) have one: "\<exists>w'. fetchVideoData apiService (scripted []) V fresh
       = (Inr \<lparr>data = \<lparr>title = Str ''YouTube Video (dQw4w9WgXcQ)'',
                      thumbnailUrl = Str ''https://img.youtube.com/vi/dQw4w9WgXcQ/mqdefault.jpg''\<rparr>,
               success = True, error = None, source = fallback\<rparr>, w')"
    by (intro exI [of _ w']) simp
  from fetchVideoData_fallback [OF fails, of P] obtain r w' where r:
    "fetchVideoData apiService (scripted []) P fresh = (Inr r, w')"
    "success r" "source r = fallback" "error r = None"
    "\<forall>p. getYouTubeID P = Inr None \<and> getYouTubePlaylistID P = Some p \<longrightarrow>
           title (data r) = Str (''YouTube Playlist ('' @ p @ '')'')
           \<and> thumbnailUrl (data r) = Str ''placeholder''"
    by (elim exE conjE)
  from r(5) b' have "title (data r) = Str (''YouTube Playlist ('' @ ''PLrAXtmRdnEQy6nuLMOV7V4r4s_nloyEfR'' @ '')'')
           \<and> thumbnailUrl (data r) = Str ''placeholder''"
    by (elim allE) (erule mp)
  with r(2,3,4) eq [of r]
  have "r = \<lparr>data = \<lparr>title = Str ''YouTube Playlist (PLrAXtmRdnEQy6nuLMOV7V4r4s_nloyEfR)'',
                      thumbnailUrl = Str ''placeholder''\<rparr>,
               success = True, error = None, source = fallback\<rparr>"
    by simp
  with r(1) have two: "\<exists>w'. fetchVideoData apiService (scripted []) P fresh
       = (Inr \<lparr>data = \<lparr>title = Str ''YouTube Playlist (PLrAXtmRdnEQy6nuLMOV7V4r4s_nloyEfR)'',
                      thumbnailUrl = Str ''placeholder''\<rparr>,
               success = True, error = None, source = fallback\<rparr>, w')"
    by (intro exI [of _ w']) simp
  from fetchVideoData_fallback [OF fails, of N] obtain r w' where r:
    "fetchVideoData apiService (scripted []) N fresh = (Inr r, w')"
    "success r" "source r = fallback" "error r = None"
    "getYouTubeID N = Inr None \<and> getYouTubePlaylistID N = None \<longrightarrow>
           title (data r) = Str ''YouTube Content''
           \<and> thumbnailUrl (data r) = Str ''placeholder''"
    by (elim exE conjE)
  from r(5) c' have "title (data r) = Str ''YouTube Content''
           \<and> thumbnailUrl (data r) = Str ''placeholder''"
    by (rule mp)
  with r(2,3,4) eq [of r]
  have "r = \<lparr>data = \<lparr>title = Str ''YouTube Content'', thumbnailUrl = Str ''placeholder''\<rparr>,
               success = True, error = None, source = fallback\<rparr>"
    by simp
  with r(1) have three: "\<exists>w'. fetchVideoData apiService (scripted []) N fresh
       = (Inr \<lparr>data = \<lparr>title = Str ''YouTube Content'', thumbnailUrl = Str ''placeholder''\<rparr>,
               success = True, error = None, source = fallback\<rparr>, w')"
    by (intro exI [of _ w']) simp
  from one two three show ?thesis
    unfolding V_def P_def N_def by (intro conjI)
qed

subsection \<open>Content of a video-path success\<close>

lemma noembed_operation_Inr:
  assumes "fetchVideoDataFromNoEmbed_operation net url h = (Inr r, h')"
  shows "\<exists>resp d t.
      net h \<lparr>req_url = ''https://noembed.com/embed?url='' @ encodeURIComponent url,
              req_timeout = 10000\<rparr> = Responded resp
    \<and> ok resp \<and> body resp = Some d
    \<and> get_prop d ''title'' = Inr t
    \<and> title (data r) = (if truthy t then t else Str ''Untitled'')
    \<and> (\<forall>v. getYouTubeID url = Inr (Some v) \<longrightarrow>
          thumbnailUrl (data r) = Str (''https://img.youtube.com/vi/'' @ v @ ''/mqdefault.jpg''))
    \<and> (getYouTubeID url = Inr None \<longrightarrow>
          get_prop d ''thumbnail_url'' = Inr (thumbnailUrl (data r)))"
proof -
  let ?u = "''https://noembed.com/embed?url='' @ encodeURIComponent url"
  obtain x h1 where f: "fetchWithTimeout net ?u 10000 h = (x, h1)"
    by (cases "fetchWithTimeout net ?u 10000 h")
  with assms obtain resp where x: "x = Inr resp"
    by (cases x) (simp_all add: fetchVideoDataFromNoEmbed_operation_def)
  with f have n: "net h \<lparr>req_url = ?u, req_timeout = 10000\<rparr> = Responded resp"
    by (simp add: fetchWithTimeout_Inr)
  from assms f x have okr: "ok resp"
    by (simp add: fetchVideoDataFromNoEmbed_operation_def split: if_splits)
  with assms f x obtain d e vid th t where steps:
    "json resp = Inr d" "get_prop d ''error'' = Inr e" "\<not> truthy e"
    "getYouTubeID url = Inr vid"
    "(case vid of None \<Rightarrow> get_prop d ''thumbnail_url''
      | Some v \<Rightarrow> if truthy_id vid
                  then Inr (Str (''https://img.youtube.com/vi/'' @ v @ ''/mqdefault.jpg''))
                  else get_prop d ''thumbnail_url'') = Inr th"
    "get_prop d ''title'' = Inr t"
    "r = \<lparr>data = \<lparr>title = or_else t (Str ''Untitled''), thumbnailUrl = th\<rparr>,
          success = True, error = None, source = primary\<rparr>"
    by (auto simp add: fetchVideoDataFromNoEmbed_operation_def bnd_Inr split: if_splits)
  from steps(1) have b: "body resp = Some d"
    by (simp add: json_def split: option.splits)
  from steps(4,5) truthy_videoId [OF steps(4)]
  have th: "(\<forall>v. getYouTubeID url = Inr (Some v) \<longrightarrow>
               th = Str (''https://img.youtube.com/vi/'' @ v @ ''/mqdefault.jpg''))
          \<and> (getYouTubeID url = Inr None \<longrightarrow> get_prop d ''thumbnail_url'' = Inr th)"
    by (cases vid) auto
  from n okr b steps(6,7) th show ?thesis
    by (intro exI [of _ resp] exI [of _ d] exI [of _ t]) (simp add: or_else_def)
qed

text \<open>
  A response whose \<open>title\<close> is present and is the empty string: the result carries
  \<open>Untitled\<close>, not the title the server provided.
\<close>

theorem fetchVideoData_video_title_counterexample:
  "get_prop (Obj [(''title'', Str '''')]) ''title'' = Inr (Str '''')
   \<and> fetchVideoData apiService
        (scripted [Responded \<lparr>ok = True, status = 200,
                               body = Some (Obj [(''title'', Str '''')])\<rparr>])
        ''https://www.youtube.com/watch?v=dQw4w9WgXcQ'' fresh
      = (Inr \<lparr>data = \<lparr>title = Str ''Untitled'',
                      thumbnailUrl = Str ''https://img.youtube.com/vi/dQw4w9WgXcQ/mqdefault.jpg''\<rparr>,
              success = True, error = None, source = primary\<rparr>,
         \<lparr>env = [\<lparr>req_url = ''https://noembed.com/embed?url=https%3A%2F%2Fwww.youtube.com%2Fwatch%3Fv%3DdQw4w9WgXcQ'',
                   req_timeout = 10000\<rparr>],
          attempts = 1, sleeps = []\<rparr>)"
proof -
  have v: "getYouTubeID ''https://www.youtube.com/watch?v=dQw4w9WgXcQ'' = Inr (Some ''dQw4w9WgXcQ'')"
    by code_simp
  have p: "getYouTubePlaylistID ''https://www.youtube.com/watch?v=dQw4w9WgXcQ'' = None"
    by code_simp
  have u: "encodeURIComponent ''https://www.youtube.com/watch?v=dQw4w9WgXcQ''
             = ''https%3A%2F%2Fwww.youtube.com%2Fwatch%3Fv%3DdQw4w9WgXcQ''"
    by code_simp
  have "fetchVideoDataFromNoEmbed_operation
          (scripted [Responded \<lparr>ok = True, status = 200,
                                 body = Some (Obj [(''title'', Str '''')])\<rparr>])
          ''https://www.youtube.com/watch?v=dQw4w9WgXcQ'' (env fresh)
        = (Inr \<lparr>data = \<lparr>title = Str ''Untitled'',
                      thumbnailUrl = Str ''https://img.youtube.com/vi/dQw4w9WgXcQ/mqdefault.jpg''\<rparr>,
              success = True, error = None, source = primary\<rparr>,
           [\<lparr>req_url = ''https://noembed.com/embed?url=https%3A%2F%2Fwww.youtube.com%2Fwatch%3Fv%3DdQw4w9WgXcQ'',
             req_timeout = 10000\<rparr>])"
    by (simp add: fetchVideoDataFromNoEmbed_operation_def fetchWithTimeout_def scripted_def
          fresh_def json_def or_else_def v u)
  from retry_fulfilled [where operation = "fetchVideoDataFromNoEmbed_operation
          (scripted [Responded \<lparr>ok = True, status = 200,
                                 body = Some (Obj [(''title'', Str '''')])\<rparr>])
          ''https://www.youtube.com/watch?v=dQw4w9WgXcQ''"
        and w = fresh and this = apiService and k = 0, OF this] v p
  show ?thesis
    by (simp add: fetchVideoData_def fetchVideoDataFromNoEmbed_def fresh_def)
qed

text \<open>
  C6, amended. Every primary result of \<open>fetchVideoData\<close> on the video path comes from a
  response to its last request that is \<open>ok\<close> and has a JSON body \<open>d\<close>. If a video id
  \<open>v\<close> is extracted from the url, the thumbnail is the per-id url of \<open>v\<close>, whatever \<open>d\<close>
  holds; if none is extracted, it is \<open>d.thumbnail_url\<close>. The title is \<open>d.title\<close> when that
  is truthy and \<open>Untitled\<close> otherwise: when the title is absent, but also when it is the
  empty string or another falsy value.
\<close>

theorem fetchVideoData_video_success:
  assumes "fetchVideoData this net url w = (Inr r, w')"
    and "source r = primary"
    and "\<not> (getYouTubePlaylistID url \<noteq> None \<and> getYouTubeID url = Inr None)"
  shows "\<exists>h resp d t.
      env w' = h @ [\<lparr>req_url = ''https://noembed.com/embed?url='' @ encodeURIComponent url,
                      req_timeout = 10000\<rparr>]
    \<and> net h \<lparr>req_url = ''https://noembed.com/embed?url='' @ encodeURIComponent url,
              req_timeout = 10000\<rparr> = Responded resp
    \<and> ok resp \<and> body resp = Some d
    \<and> get_prop d ''title'' = Inr t
    \<and> title (data r) = (if truthy t then t else Str ''Untitled'')
    \<and> (\<forall>v. getYouTubeID url = Inr (Some v) \<longrightarrow>
          thumbnailUrl (data r) = Str (''https://img.youtube.com/vi/'' @ v @ ''/mqdefault.jpg''))
    \<and> (getYouTubeID url = Inr None \<longrightarrow>
          get_prop d ''thumbnail_url'' = Inr (thumbnailUrl (data r)))"
proof -
  from getYouTubeID_total [of url] obtain videoId where v: "getYouTubeID url = Inr videoId"
    by blast
  with assms(3) have video: "\<not> (getYouTubePlaylistID url \<noteq> None \<and> videoId = None)"
    by simp
  obtain x w1 where l: "fetchVideoDataFromNoEmbed this net url w = (x, w1)"
    by (cases "fetchVideoDataFromNoEmbed this net url w")
  have "x = Inr r \<and> w1 = w'"
  proof (cases x)
    case (Inl e)
    with l video assms(1) have "r = fetchWithFallback url videoId"
      by (auto simp add: fetchVideoData_eq [OF v])
    with assms(2) fetchWithFallback_success [of url videoId] show ?thesis by simp
  next
    case (Inr r')
    with l video assms(1) show ?thesis
      by (auto simp add: fetchVideoData_eq [OF v])
  qed
  with l have "retryWithBackoff this (fetchVideoDataFromNoEmbed_operation net url) 0 w = (Inr r, w')"
    by (simp add: fetchVideoDataFromNoEmbed_def)
  from retry_result [OF this] obtain h where
    h: "fetchVideoDataFromNoEmbed_operation net url h = (Inr r, env w')"
    by blast
  from noembed_operation_env [of net url h] h
  have "env w' = h @ [\<lparr>req_url = ''https://noembed.com/embed?url='' @ encodeURIComponent url,
                        req_timeout = 10000\<rparr>]"
    by simp
  with noembed_operation_Inr [OF h] show ?thesis
    by (elim exE conjE) (intro exI [of _ h], blast)
qed

lemma fetchVideoData_first_attempt:
  assumes "getYouTubeID url = Inr videoId"
    and "\<not> (getYouTubePlaylistID url \<noteq> None \<and> videoId = None)"
    and "fetchVideoDataFromNoEmbed_operation net url (env w) = (Inr r, e')"
  shows "fetchVideoData this net url w = (Inr r, w\<lparr>env := e', attempts := Suc (attempts w)\<rparr>)"
  using assms(2)
    retry_fulfilled [where operation = "fetchVideoDataFromNoEmbed_operation net url"
      and w = w and this = this and k = 0, OF assms(3)]
  by (auto simp add: fetchVideoData_eq [OF assms(1)] fetchVideoDataFromNoEmbed_def)

theorem fetchVideoData_video_success_witness:
  "(\<exists>h resp d t.
      [\<lparr>req_url = ''https://noembed.com/embed?url='' @ encodeURIComponent
            ''https://www.youtube.com/watch?v=dQw4w9WgXcQ'', req_timeout = 10000\<rparr>]
       = h @ [\<lparr>req_url = ''https://noembed.com/embed?url='' @ encodeURIComponent
            ''https://www.youtube.com/watch?v=dQw4w9WgXcQ'', req_timeout = 10000\<rparr>]
    \<and> scripted [Responded \<lparr>ok = True, status = 200,
         body = Some (Obj [(''title'', Str ''Test Video''),
                           (''thumbnail_url'', Str ''https://example.com/thumb.jpg'')])\<rparr>] h
         \<lparr>req_url = ''https://noembed.com/embed?url='' @ encodeURIComponent
            ''https://www.youtube.com/watch?v=dQw4w9WgXcQ'', req_timeout = 10000\<rparr>
       = Responded resp
    \<and> ok resp \<and> body resp = Some d
    \<and> get_prop d ''title'' = Inr t
    \<and> Str ''Test Video'' = (if truthy t then t else Str ''Untitled'')
    \<and> getYouTubeID ''https://www.youtube.com/watch?v=dQw4w9WgXcQ'' = Inr (Some ''dQw4w9WgXcQ''))
   \<and> (\<exists>h resp d t.
      [\<lparr>req_url = ''https://noembed.com/embed?url='' @ encodeURIComponent ''hello'',
         req_timeout = 10000\<rparr>]
       = h @ [\<lparr>req_url = ''https://noembed.com/embed?url='' @ encodeURIComponent ''hello'',
               req_timeout = 10000\<rparr>]
    \<and> scripted [Responded \<lparr>ok = True, status = 200,
         body = Some (Obj [(''thumbnail_url'', Str ''https://example.com/thumb.jpg'')])\<rparr>] h
         \<lparr>req_url = ''https://noembed.com/embed?url='' @ encodeURIComponent ''hello'',
          req_timeout = 10000\<rparr>
       = Responded resp
    \<and> ok resp \<and> body resp = Some d
    \<and> get_prop d ''title'' = Inr t
    \<and> Str ''Untitled'' = (if truthy t then t else Str ''Untitled'')
    \<and> get_prop d ''thumbnail_url'' = Inr (Str ''https://example.com/thumb.jpg''))"
proof -
  define V where "V = ''https://www.youtube.com/watch?v=dQw4w9WgXcQ''"
  define H where "H = ''hello''"
  define N1 where "N1 = scripted [Responded \<lparr>ok = True, status = 200,
         body = Some (Obj [(''title'', Str ''Test Video''),
                           (''thumbnail_url'', Str ''https://example.com/thumb.jpg'')])\<rparr>]"
  define N2 where "N2 = scripted [Responded \<lparr>ok = True, status = 200,
         body = Some (Obj [(''thumbnail_url'', Str ''https://example.com/thumb.jpg'')])\<rparr>]"
  define R1 where "R1 = \<lparr>data = \<lparr>title = Str ''Test Video'',
        thumbnailUrl = Str ''https://img.youtube.com/vi/dQw4w9WgXcQ/mqdefault.jpg''\<rparr>,
      success = True, error = None, source = primary\<rparr>"
  define R2 where "R2 = \<lparr>data = \<lparr>title = Str ''Untitled'',
        thumbnailUrl = Str ''https://example.com/thumb.jpg''\<rparr>,
      success = True, error = None, source = primary\<rparr>"
  have v: "getYouTubeID V = Inr (Some ''dQw4w9WgXcQ'')"
    unfolding V_def by code_simp
  have vp: "\<not> (getYouTubePlaylistID V \<noteq> None \<and> getYouTubeID V = Inr None)"
    using v by simp
  have h: "getYouTubeID H = Inr None"
    unfolding H_def by code_simp
  have hp: "\<not> (getYouTubePlaylistID H \<noteq> None \<and> getYouTubeID H = Inr None)"
    unfolding H_def by code_simp
  have o1: "fetchVideoDataFromNoEmbed_operation N1 V (env fresh)
        = (Inr R1, [\<lparr>req_url = ''https://noembed.com/embed?url='' @ encodeURIComponent V,
                     req_timeout = 10000\<rparr>])"
    by (simp add: fetchVideoDataFromNoEmbed_operation_def fetchWithTimeout_def scripted_def
          fresh_def json_def or_else_def v N1_def R1_def)
  have o2: "fetchVideoDataFromNoEmbed_operation N2 H (env fresh)
        = (Inr R2, [\<lparr>req_url = ''https://noembed.com/embed?url='' @ encodeURIComponent H,
                     req_timeout = 10000\<rparr>])"
    by (simp add: fetchVideoDataFromNoEmbed_operation_def fetchWithTimeout_def scripted_def
          fresh_def json_def or_else_def h N2_def R2_def)
  have s1: "source R1 = primary" and s2: "source R2 = primary"
    by (simp_all add: R1_def R2_def)
  from fetchVideoData_video_success
    [OF fetchVideoData_first_attempt [where this = apiService, OF v _ o1] s1 vp] vp v
  have one: "\<exists>h resp d t.
      [\<lparr>req_url = ''https://noembed.com/embed?url='' @ encodeURIComponent V, req_timeout = 10000\<rparr>]
       = h @ [\<lparr>req_url = ''https://noembed.com/embed?url='' @ encodeURIComponent V,
               req_timeout = 10000\<rparr>]
    \<and> N1 h \<lparr>req_url = ''https://noembed.com/embed?url='' @ encodeURIComponent V,
             req_timeout = 10000\<rparr> = Responded resp
    \<and> ok resp \<and> body resp = Some d
    \<and> get_prop d ''title'' = Inr t
    \<and> Str ''Test Video'' = (if truthy t then t else Str ''Untitled'')
    \<and> getYouTubeID V = Inr (Some ''dQw4w9WgXcQ'')"
    by (simp add: R1_def del: append_eq_Cons_conv Cons_eq_append_conv)
  from fetchVideoData_video_success
    [OF fetchVideoData_first_attempt [where this = apiService, OF h _ o2] s2 hp] hp h
  have two: "\<exists>h resp d t.
      [\<lparr>req_url = ''https://noembed.com/embed?url='' @ encodeURIComponent H, req_timeout = 10000\<rparr>]
       = h @ [\<lparr>req_url = ''https://noembed.com/embed?url='' @ encodeURIComponent H,
               req_timeout = 10000\<rparr>]
    \<and> N2 h \<lparr>req_url = ''https://noembed.com/embed?url='' @ encodeURIComponent H,
             req_timeout = 10000\<rparr> = Responded resp
    \<and> ok resp \<and> body resp = Some d
    \<and> get_prop d ''title'' = Inr t
    \<and> Str ''Untitled'' = (if truthy t then t else Str ''Untitled'')
    \<and> get_prop d ''thumbnail_url'' = Inr (Str ''https://example.com/thumb.jpg'')"
    by (simp add: R2_def del: append_eq_Cons_conv Cons_eq_append_conv)
  from one two show ?thesis
    unfolding V_def H_def N1_def N2_def by (rule conjI)
qed

subsection \<open>Health flags\<close>

text \<open>
  C10. Each flag of \<open>checkApiHealth\<close> says exactly that the fetch of its own probe was
  answered by a response, whatever the response (its \<open>ok\<close> flag and status are not read,
  so a response with status 500 counts as healthy); a flag is false only when the probe was
  not answered: the network failed or the 5000 ms timer aborted the request. A flag stays
  the same under every change of the network that leaves the outcome of its own probe as
  it is.
\<close>

theorem checkApiHealth_flags:
  "noembed (fst (checkApiHealth net h)) = (\<exists>resp. net h noembed_probe = Responded resp)
   \<and> youtubemultidownloader (fst (checkApiHealth net h)) =
       (\<exists>resp. net (h @ [noembed_probe]) playlist_probe = Responded resp)
   \<and> (\<not> noembed (fst (checkApiHealth net h)) \<longrightarrow>
        net h noembed_probe = Unreachable \<or> net h noembed_probe = TimedOut)
   \<and> (\<not> youtubemultidownloader (fst (checkApiHealth net h)) \<longrightarrow>
        net (h @ [noembed_probe]) playlist_probe = Unreachable
        \<or> net (h @ [noembed_probe]) playlist_probe = TimedOut)
   \<and> (\<forall>net'. net' h noembed_probe = net h noembed_probe \<longrightarrow>
        noembed (fst (checkApiHealth net' h)) = noembed (fst (checkApiHealth net h)))
   \<and> (\<forall>net'. net' (h @ [noembed_probe]) playlist_probe = net (h @ [noembed_probe]) playlist_probe \<longrightarrow>
        youtubemultidownloader (fst (checkApiHealth net' h)) =
          youtubemultidownloader (fst (checkApiHealth net h)))"
proof -
  have a: "noembed (fst (checkApiHealth n h)) =
             (case n h noembed_probe of Responded resp \<Rightarrow> True | _ \<Rightarrow> False)" for n
    by (simp add: checkApiHealth_def fetchWithTimeout_def noembed_probe_def Let_def
          split: fetch_outcome.splits prod.splits)
  have b: "youtubemultidownloader (fst (checkApiHealth n h)) =
             (case n (h @ [noembed_probe]) playlist_probe of Responded resp \<Rightarrow> True | _ \<Rightarrow> False)" for n
    by (simp add: checkApiHealth_def fetchWithTimeout_def noembed_probe_def playlist_probe_def
          Let_def split: fetch_outcome.splits prod.splits)
  show ?thesis
    unfolding a b by (auto split: fetch_outcome.splits)
qed

theorem checkApiHealth_flags_witness:
  "noembed (fst (checkApiHealth
       (scripted [Responded \<lparr>ok = False, status = 500, body = None\<rparr>, TimedOut]) []))
   \<and> \<not> youtubemultidownloader (fst (checkApiHealth
       (scripted [Responded \<lparr>ok = False, status = 500, body = None\<rparr>, TimedOut]) []))
   \<and> scripted [Responded \<lparr>ok = False, status = 500, body = None\<rparr>, TimedOut]
        ([] @ [noembed_probe]) playlist_probe = TimedOut
   \<and> noembed (fst (checkApiHealth
       (scripted [Responded \<lparr>ok = False, status = 500, body = None\<rparr>,
                  Responded \<lparr>ok = True, status = 200, body = None\<rparr>]) []))
     = noembed (fst (checkApiHealth
       (scripted [Responded \<lparr>ok = False, status = 500, body = None\<rparr>, TimedOut]) []))
   \<and> youtubemultidownloader (fst (checkApiHealth (scripted [Unreachable, TimedOut]) []))
     = youtubemultidownloader (fst (checkApiHealth
       (scripted [Responded \<lparr>ok = False, status = 500, body = None\<rparr>, TimedOut]) []))"
proof -
  define A where "A = scripted [Responded \<lparr>ok = False, status = 500, body = None\<rparr>, TimedOut]"
  define B where "B = scripted [Responded \<lparr>ok = False, status = 500, body = None\<rparr>,
                                Responded \<lparr>ok = True, status = 200, body = None\<rparr>]"
  define C where "C = scripted [Unreachable, TimedOut]"
  have a0: "A [] noembed_probe = Responded \<lparr>ok = False, status = 500, body = None\<rparr>"
    and a1: "A ([] @ [noembed_probe]) playlist_probe = TimedOut"
    and b0: "B [] noembed_probe = A [] noembed_probe"
    and c1: "C ([] @ [noembed_probe]) playlist_probe = A ([] @ [noembed_probe]) playlist_probe"
    by (simp_all add: A_def B_def C_def scripted_def)
  note t = checkApiHealth_flags [of A "[]"]
  from t a0 have "noembed (fst (checkApiHealth A []))" by simp
  moreover from t a1 have "\<not> youtubemultidownloader (fst (checkApiHealth A []))" by simp
  moreover from t b0 have "noembed (fst (checkApiHealth B [])) = noembed (fst (checkApiHealth A []))"
    by blast
  moreover from t c1 have "youtubemultidownloader (fst (checkApiHealth C []))
     = youtubemultidownloader (fst (checkApiHealth A []))"
    by blast
  ultimately show ?thesis
    using a1 unfolding A_def B_def C_def by blast
qed

end
